theory Spec2Isabelle
  imports Complex_Main
begin

section \<open>JavaScript values of the front end (script.js)\<close>

text \<open>
  The values that travel between the backend and \<^verbatim>\<open>script.js\<close>: what
  \<^verbatim>\<open>response.json()\<close> yields, plus \<^verbatim>\<open>undefined\<close>, which a property read of a
  missing key gives. Numbers are reals (IEEE rounding is outside the model); an object is
  an association list in insertion order, the order \<^verbatim>\<open>Object.entries\<close> walks.
\<close>

datatype jsval =
    JUndefined
  | JNull
  | JBool bool
  | JNum real
  | JStr string
  | JArr "jsval list"
  | JObj "(string \<times> jsval) list"

datatype js_error =
    TypeError string
  | SyntaxError string
  | Error string

text \<open>
  \<^verbatim>\<open>v.key\<close>: a TypeError on \<^verbatim>\<open>undefined\<close> and \<^verbatim>\<open>null\<close>, the stored value on an
  object that has the key, \<^verbatim>\<open>undefined\<close> otherwise. (Primitives and arrays answer
  \<^verbatim>\<open>undefined\<close>: no key read by the modelled code is \<^verbatim>\<open>length\<close> or an index.)
\<close>

fun get_prop :: "jsval \<Rightarrow> string \<Rightarrow> js_error + jsval" where
  "get_prop JUndefined k = Inl (TypeError (''Cannot read properties of undefined (reading '' @ k @ '')''))"
| "get_prop JNull k = Inl (TypeError (''Cannot read properties of null (reading '' @ k @ '')''))"
| "get_prop (JObj kvs) k = (case map_of kvs k of None \<Rightarrow> Inr JUndefined | Some v \<Rightarrow> Inr v)"
| "get_prop v k = Inr JUndefined"

text \<open>Sequencing of steps that may throw: the first exception ends the block.\<close>

definition bind_js :: "js_error + 'a \<Rightarrow> ('a \<Rightarrow> js_error + 'b) \<Rightarrow> js_error + 'b" where
  "bind_js m f = (case m of Inl e \<Rightarrow> Inl e | Inr v \<Rightarrow> f v)"

section \<open>Distribution charts (createDistributionCharts)\<close>

text \<open>
  One trace handed to \<^verbatim>\<open>Plotly.newPlot\<close>: the target element, the layout title, and the
  trace's \<^verbatim>\<open>x\<close>, \<^verbatim>\<open>y\<close>, \<^verbatim>\<open>type\<close> and \<^verbatim>\<open>name\<close>. A key the literal does not set is
  \<^verbatim>\<open>undefined\<close>. Colours, margins and axis titles are constants of the source and are
  left out.
\<close>

record plot =
  target :: string
  title :: string
  trace_x :: jsval
  trace_y :: jsval
  trace_type :: string
  trace_name :: string

text \<open>\<^verbatim>\<open>Array.from({length: 74}, (_, i) => i + 16)\<close>\<close>

definition age_axis :: "jsval list" where
  "age_axis = map (\<lambda>i. JNum (real i + 16)) [0..<74]"

text \<open>\<^verbatim>\<open>['1', '2', '3', '4', '5', '6', '7']\<close>\<close>

definition education_axis :: "jsval list" where
  "education_axis = [JStr ''1'', JStr ''2'', JStr ''3'', JStr ''4'', JStr ''5'', JStr ''6'', JStr ''7'']"

text \<open>
  The four plots in the order the source draws them. Each read of
  \<^verbatim>\<open>currentData.distributions.k\<close> throws when \<^verbatim>\<open>distributions\<close> is null or undefined.
\<close>

definition createDistributionCharts :: "jsval \<Rightarrow> js_error + plot list" where
  "createDistributionCharts currentData =
     bind_js (get_prop currentData ''distributions'') (\<lambda>d.
     bind_js (get_prop d ''immigration'') (\<lambda>immigration.
     bind_js (get_prop d ''political'') (\<lambda>political.
     bind_js (get_prop d ''age'') (\<lambda>age.
     bind_js (get_prop d ''education'') (\<lambda>education.
       Inr [
         \<lparr>target = ''immigration-dist'', title = ''Distribution of Immigration Attitudes'',
          trace_x = immigration, trace_y = JUndefined,
          trace_type = ''histogram'', trace_name = ''Immigration Attitudes''\<rparr>,
         \<lparr>target = ''political-dist'', title = ''Distribution of Political Orientation'',
          trace_x = political, trace_y = JUndefined,
          trace_type = ''histogram'', trace_name = ''Political Orientation''\<rparr>,
         \<lparr>target = ''age-dist'', title = ''Age Distribution'',
          trace_x = JArr age_axis, trace_y = age,
          trace_type = ''scatter'', trace_name = ''Age Distribution''\<rparr>,
         \<lparr>target = ''education-dist'', title = ''Education Level Distribution'',
          trace_x = JArr education_axis, trace_y = education,
          trace_type = ''bar'', trace_name = ''Education Level''\<rparr>])))))"

section \<open>The backend as the front end sees it (fetch)\<close>

text \<open>
  A call of \<^verbatim>\<open>fetch\<close>: the URL and the options of the call (a GET passes none). The
  payload is the value handed to \<^verbatim>\<open>JSON.stringify\<close>.
\<close>

record request =
  url :: string
  http_method :: string
  headers :: "(string \<times> string) list"
  payload :: jsval

text \<open>
  What the promise of \<^verbatim>\<open>fetch\<close> settles to: it rejects (network failure), or it
  resolves with a response whose \<^verbatim>\<open>ok\<close> flag and \<^verbatim>\<open>status\<close> are read, and whose
  \<^verbatim>\<open>json()\<close> either rejects (the body is not JSON) or yields a value.
\<close>

record response =
  ok :: bool
  status :: nat
  json_body :: "js_error + jsval"

datatype fetch_outcome = Rejects js_error | Resolves response

type_synonym backend = "request \<Rightarrow> fetch_outcome"

definition API_BASE_URL :: string where
  "API_BASE_URL = ''http://localhost:3000''"

section \<open>Chat (initializeChat, sendMessage, addMessageToChat)\<close>

text \<open>
  \<^verbatim>\<open>String.prototype.trim\<close> strips white space and line terminators from both ends. The
  code units below 256 that count: TAB, LF, VT, FF, CR, SP and NBSP.
\<close>

definition js_whitespace :: "char \<Rightarrow> bool" where
  "js_whitespace c = (of_char c \<in> set [9, 10, 11, 12, 13, 32, 160 :: nat])"

definition js_trim :: "string \<Rightarrow> string" where
  "js_trim s = rev (dropWhile js_whitespace (rev (dropWhile js_whitespace s)))"

text \<open>Decimal digits of a number, for the status in the error text.\<close>

fun string_of_nat :: "nat \<Rightarrow> string" where
  "string_of_nat n =
     (if n < 10 then [char_of (48 + n)]
      else string_of_nat (n div 10) @ [char_of (48 + n mod 10)])"

text \<open>
  One message element of the chat: its class, the icon of its avatar, and the content that
  \<^verbatim>\<open>addMessageToChat\<close> interpolates into \<^verbatim>\<open><p>${content}</p>\<close>.
\<close>

record chat_message =
  className :: string
  avatar :: string
  content :: jsval

text \<open>
  The part of the page \<^verbatim>\<open>sendMessage\<close> reads and writes: the input field, the selected
  research depth, the children of \<^verbatim>\<open>#chat-messages\<close>, and the requests sent so far.
\<close>

record chat_page =
  chat_input_field :: string
  research_depth :: string
  chat_messages :: "chat_message list"
  sent :: "request list"

definition addMessageToChat :: "string \<Rightarrow> jsval \<Rightarrow> chat_page \<Rightarrow> chat_page" where
  "addMessageToChat sender c page =
     page\<lparr>chat_messages := chat_messages page @
       [\<lparr>className = ''message '' @ sender @ ''-message'',
         avatar = (if sender = ''ai'' then ''<i class=\"fas fa-robot\"></i>''
                   else ''<i class=\"fas fa-user\"></i>''),
         content = c\<rparr>]\<rparr>"

text \<open>The POST that \<^verbatim>\<open>sendMessage\<close> issues.\<close>

definition ai_request :: "string \<Rightarrow> string \<Rightarrow> request" where
  "ai_request message researchDepth =
     \<lparr>url = API_BASE_URL @ ''/api/ai-assistant'',
      http_method = ''POST'',
      headers = [(''Content-Type'', ''application/json'')],
      payload = JObj [(''message'', JStr message), (''research_depth'', JStr researchDepth)]\<rparr>"

definition ai_error_text :: string where
  "ai_error_text = ''Sorry, I encountered an error. Please try again. You may need to check if the backend is running.''"

text \<open>
  The body of the \<^verbatim>\<open>try\<close> block: the request goes out, then the block either throws
  (the fetch rejected, the status was not ok, the body was not JSON, or the parsed value
  was null) or appends the \<^verbatim>\<open>response\<close> member as the AI's message.
\<close>

definition sendMessage_try :: "backend \<Rightarrow> string \<Rightarrow> chat_page \<Rightarrow> (js_error + unit) \<times> chat_page" where
  "sendMessage_try fetch message page =
     (let researchDepth = research_depth page;
          req = ai_request message researchDepth;
          page1 = page\<lparr>sent := sent page @ [req]\<rparr>
      in case fetch req of
           Rejects e \<Rightarrow> (Inl e, page1)
         | Resolves r \<Rightarrow>
             if \<not> ok r then (Inl (Error (''HTTP error! status: '' @ string_of_nat (status r))), page1)
             else (case json_body r of
                     Inl e \<Rightarrow> (Inl e, page1)
                   | Inr aiResponse \<Rightarrow>
                       (case get_prop aiResponse ''response'' of
                          Inl e \<Rightarrow> (Inl e, page1)
                        | Inr v \<Rightarrow> (Inr (), addMessageToChat ''ai'' v page1))))"

text \<open>
  \<^verbatim>\<open>sendMessage\<close>: nothing happens on an empty trimmed input; otherwise the user's message
  is appended, the field is cleared, and the \<^verbatim>\<open>catch\<close> turns every exception of the
  block into the fixed apology.
\<close>

definition sendMessage :: "backend \<Rightarrow> chat_page \<Rightarrow> chat_page" where
  "sendMessage fetch page =
     (let message = js_trim (chat_input_field page)
      in if message = [] then page
         else
           let page1 = addMessageToChat ''user'' (JStr message) page;
               page2 = page1\<lparr>chat_input_field := ''''\<rparr>
           in case sendMessage_try fetch message page2 of
                (Inr u, page3) \<Rightarrow> page3
              | (Inl error, page3) \<Rightarrow> addMessageToChat ''ai'' (JStr ai_error_text) page3)"

text \<open>
  The ways the assistant call fails: the fetch rejects (network error), the status is not
  ok, the body is not JSON, or the parsed body is \<^verbatim>\<open>null\<close> (reading its member throws).
\<close>

definition ai_call_failed :: "fetch_outcome \<Rightarrow> bool" where
  "ai_call_failed outcome =
     (case outcome of
        Rejects e \<Rightarrow> True
      | Resolves r \<Rightarrow>
          (if ok r then (case json_body r of Inl e \<Rightarrow> True | Inr v \<Rightarrow> v = JNull \<or> v = JUndefined)
           else True))"

section \<open>Loading the dashboard (loadData)\<close>

text \<open>
  The page state \<^verbatim>\<open>loadData\<close> reads and writes: the global \<^verbatim>\<open>currentData\<close>
  (\<^verbatim>\<open>null\<close> at start), whether the loading overlay carries the class \<^verbatim>\<open>show\<close>, the
  error notifications appended to the body, the requests sent, and the rendering functions
  called so far.
\<close>

datatype render_call = UpdateMetrics | CreateCharts | PerformAnalysis

record app =
  currentData :: jsval
  loading :: bool
  error_notifications :: "string list"
  requested :: "request list"
  rendered :: "render_call list"

text \<open>
  The three rendering functions, taken as parameters: each reads \<^verbatim>\<open>currentData\<close> and
  either returns or throws (a member it reads may be missing). What they draw is modelled
  with the charts themselves.
\<close>

record renderers =
  updateMetrics :: "jsval \<Rightarrow> js_error option"
  createCharts :: "jsval \<Rightarrow> js_error option"
  performAnalysis :: "jsval \<Rightarrow> js_error option"

definition showLoading :: "app \<Rightarrow> app" where
  "showLoading s = s\<lparr>loading := True\<rparr>"

definition hideLoading :: "app \<Rightarrow> app" where
  "hideLoading s = s\<lparr>loading := False\<rparr>"

definition showError :: "string \<Rightarrow> app \<Rightarrow> app" where
  "showError message s = s\<lparr>error_notifications := error_notifications s @ [message]\<rparr>"

fun message_of :: "js_error \<Rightarrow> string" where
  "message_of (TypeError m) = m"
| "message_of (SyntaxError m) = m"
| "message_of (Error m) = m"

text \<open>\<^verbatim>\<open>fetch(url)\<close> with no options.\<close>

definition get_request :: "string \<Rightarrow> request" where
  "get_request path = \<lparr>url = API_BASE_URL @ path, http_method = ''GET'', headers = [], payload = JUndefined\<rparr>"

text \<open>
  One of the six steps of the block:
  \<^verbatim>\<open>const r = await fetch(url); if (!r.ok) throw new Error(failure); const v = await r.json();\<close>
\<close>

definition load_json :: "backend \<Rightarrow> string \<Rightarrow> string \<Rightarrow> app \<Rightarrow> (js_error + jsval) \<times> app" where
  "load_json fetch path failure s =
     (let req = get_request path;
          s1 = s\<lparr>requested := requested s @ [req]\<rparr>
      in case fetch req of
           Rejects e \<Rightarrow> (Inl e, s1)
         | Resolves r \<Rightarrow> if \<not> ok r then (Inl (Error failure), s1) else (json_body r, s1))"

text \<open>Sequencing of steps that change the page and may throw.\<close>

definition bind_app :: "(app \<Rightarrow> (js_error + 'a) \<times> app) \<Rightarrow> ('a \<Rightarrow> app \<Rightarrow> (js_error + 'b) \<times> app)
    \<Rightarrow> app \<Rightarrow> (js_error + 'b) \<times> app" where
  "bind_app m f s = (case m s of (Inl e, s1) \<Rightarrow> (Inl e, s1) | (Inr v, s1) \<Rightarrow> f v s1)"

text \<open>A call of a rendering function: recorded, then it returns or throws.\<close>

definition render :: "render_call \<Rightarrow> (jsval \<Rightarrow> js_error option) \<Rightarrow> app \<Rightarrow> (js_error + unit) \<times> app" where
  "render c f s =
     (let s1 = s\<lparr>rendered := rendered s @ [c]\<rparr>
      in case f (currentData s1) of None \<Rightarrow> (Inr (), s1) | Some e \<Rightarrow> (Inl e, s1))"

text \<open>
  The own enumerable properties that \<^verbatim>\<open>{...v}\<close> copies: the members of an object, the
  indexed elements of an array or string, nothing for the other values.
\<close>

fun spread_entries :: "jsval \<Rightarrow> (string \<times> jsval) list" where
  "spread_entries (JObj kvs) = kvs"
| "spread_entries (JArr xs) = zip (map string_of_nat [0..<length xs]) xs"
| "spread_entries (JStr s) = zip (map string_of_nat [0..<length s]) (map (\<lambda>c. JStr [c]) s)"
| "spread_entries v = []"

text \<open>
  Setting a key of an object literal: a key already present keeps its place and takes the
  new value, a new key goes last.
\<close>

fun obj_put :: "string \<Rightarrow> jsval \<Rightarrow> (string \<times> jsval) list \<Rightarrow> (string \<times> jsval) list" where
  "obj_put k v [] = [(k, v)]"
| "obj_put k v ((k', v') # kvs) = (if k = k' then (k, v) # kvs else (k', v') # obj_put k v kvs)"

text \<open>
  The object literal assigned to \<^verbatim>\<open>currentData\<close>; reading \<^verbatim>\<open>scatterData.data\<close> throws
  when the scatter reply is \<^verbatim>\<open>null\<close>.
\<close>

definition assemble :: "jsval \<Rightarrow> jsval \<Rightarrow> jsval \<Rightarrow> jsval \<Rightarrow> jsval \<Rightarrow> jsval \<Rightarrow> js_error + jsval" where
  "assemble overview regression distributions countryStats demographics scatterData =
     bind_js (get_prop scatterData ''data'') (\<lambda>points.
       Inr (JObj (obj_put ''regression'' regression
                 (obj_put ''scatterData'' points
                 (obj_put ''demographics'' demographics
                 (obj_put ''countryStats'' countryStats
                 (obj_put ''distributions'' distributions
                 (spread_entries overview))))))))"

definition loadData_try :: "backend \<Rightarrow> renderers \<Rightarrow> app \<Rightarrow> (js_error + unit) \<times> app" where
  "loadData_try fetch ui =
     bind_app (load_json fetch ''/api/data-overview'' ''Failed to load data overview'') (\<lambda>overview.
     bind_app (load_json fetch ''/api/regression-analysis'' ''Failed to load regression analysis'') (\<lambda>regression.
     bind_app (load_json fetch ''/api/data-distributions'' ''Failed to load distributions'') (\<lambda>distributions.
     bind_app (load_json fetch ''/api/country-analysis'' ''Failed to load country analysis'') (\<lambda>countryStats.
     bind_app (load_json fetch ''/api/demographics-analysis'' ''Failed to load demographics analysis'') (\<lambda>demographics.
     bind_app (load_json fetch ''/api/scatter-data'' ''Failed to load scatter data'') (\<lambda>scatterData.
     bind_app (\<lambda>s. (assemble overview regression distributions countryStats demographics scatterData, s)) (\<lambda>d.
     bind_app (\<lambda>s. (Inr (), s\<lparr>currentData := d\<rparr>)) (\<lambda>u.
     bind_app (render UpdateMetrics (updateMetrics ui)) (\<lambda>u.
     bind_app (render CreateCharts (createCharts ui)) (\<lambda>u.
     bind_app (render PerformAnalysis (performAnalysis ui)) (\<lambda>u.
       (\<lambda>s. (Inr (), hideLoading s)))))))))))))"

definition loadData :: "backend \<Rightarrow> renderers \<Rightarrow> app \<Rightarrow> app" where
  "loadData fetch ui s =
     (case loadData_try fetch ui (showLoading s) of
        (Inr u, s1) \<Rightarrow> s1
      | (Inl error, s1) \<Rightarrow>
          showError (''Failed to load data: '' @ message_of error
                     @ ''. Please ensure the FastAPI backend is running on port 8000.'')
            (hideLoading s1))"

text \<open>The six endpoints, and what it means for the request to one of them to succeed.\<close>

definition endpoints :: "string list" where
  "endpoints = [''/api/data-overview'', ''/api/regression-analysis'', ''/api/data-distributions'',
                ''/api/country-analysis'', ''/api/demographics-analysis'', ''/api/scatter-data'']"

definition request_succeeded :: "backend \<Rightarrow> string \<Rightarrow> bool" where
  "request_succeeded fetch path =
     (case fetch (get_request path) of
        Rejects e \<Rightarrow> False
      | Resolves r \<Rightarrow> ok r \<and> (case json_body r of Inl e \<Rightarrow> False | Inr v \<Rightarrow> True))"

text \<open>
  What the block leaves behind when it throws before the assignment: the page as it was,
  apart from the requests recorded.
\<close>

definition untouched :: "app \<Rightarrow> (js_error + unit) \<times> app \<Rightarrow> bool" where
  "untouched s out = (case out of
      (Inl e, s1) \<Rightarrow> currentData s1 = currentData s \<and> rendered s1 = rendered s
                     \<and> loading s1 = loading s \<and> error_notifications s1 = error_notifications s
    | (Inr u, s1) \<Rightarrow> False)"

section \<open>Box plots (createCountryCharts, createDemographicsCharts)\<close>

text \<open>
  \<^verbatim>\<open>Math.random()\<close> made explicit: the sequence of numbers it will return, and how many
  of them have been drawn. Each call returns the next one.
\<close>

record rng =
  draws :: "nat \<Rightarrow> real"
  drawn :: nat

definition Math_random :: "rng \<Rightarrow> real \<times> rng" where
  "Math_random g = (draws g (drawn g), g\<lparr>drawn := Suc (drawn g)\<rparr>)"

text \<open>\<^verbatim>\<open>Array.from({length: n}, f)\<close>: the callback runs n times, in index order.\<close>

fun array_from :: "nat \<Rightarrow> (rng \<Rightarrow> 'a \<times> rng) \<Rightarrow> rng \<Rightarrow> 'a list \<times> rng" where
  "array_from 0 f g = ([], g)"
| "array_from (Suc n) f g =
     (case f g of (y, g1) \<Rightarrow> (case array_from n f g1 of (ys, g2) \<Rightarrow> (y # ys, g2)))"

text \<open>\<^verbatim>\<open>entries.map(f)\<close> for a callback that draws random numbers.\<close>

fun map_rng :: "('a \<Rightarrow> rng \<Rightarrow> 'b \<times> rng) \<Rightarrow> 'a list \<Rightarrow> rng \<Rightarrow> 'b list \<times> rng" where
  "map_rng f [] g = ([], g)"
| "map_rng f (x # xs) g =
     (case f x g of (y, g1) \<Rightarrow> (case map_rng f xs g1 of (ys, g2) \<Rightarrow> (y # ys, g2)))"

text \<open>The callback \<^verbatim>\<open>() => m + (Math.random() - 0.5) * 2\<close>.\<close>

definition jitter :: "real \<Rightarrow> rng \<Rightarrow> real \<times> rng" where
  "jitter m g = (case Math_random g of (r, g1) \<Rightarrow> (m + (r - 0.5) * 2, g1))"

text \<open>
  The statistics of one group as the response contract gives them, \<^verbatim>\<open>{mean, count}\<close>.
  \<^verbatim>\<open>parseFloat\<close> of a number is that number.
\<close>

record stat =
  mean :: real
  count :: int

definition parseFloat :: "real \<Rightarrow> real" where
  "parseFloat x = x"

text \<open>
  \<^verbatim>\<open>Array.from({length: len}, f)\<close> for a length taken from the data: the length is read
  with a negative number counting as 0, and creating an array of 2^32 or more elements
  throws a RangeError before the callback runs.
\<close>

datatype range_error = RangeError string

definition to_length :: "int \<Rightarrow> nat" where
  "to_length n = nat (max 0 n)"

definition array_from_length :: "int \<Rightarrow> (rng \<Rightarrow> 'a \<times> rng) \<Rightarrow> rng \<Rightarrow> (range_error + 'a list) \<times> rng" where
  "array_from_length len f g =
     (if 2 ^ 32 \<le> len then (Inl (RangeError ''Invalid array length''), g)
      else (case array_from (to_length len) f g of (ys, g1) \<Rightarrow> (Inr ys, g1)))"

text \<open>\<^verbatim>\<open>entries.map(f)\<close> for a callback that draws random numbers and may throw.\<close>

fun map_rng_try :: "('a \<Rightarrow> rng \<Rightarrow> (range_error + 'b) \<times> rng) \<Rightarrow> 'a list \<Rightarrow> rng
    \<Rightarrow> (range_error + 'b list) \<times> rng" where
  "map_rng_try f [] g = (Inr [], g)"
| "map_rng_try f (x # xs) g =
     (case f x g of
        (Inl e, g1) \<Rightarrow> (Inl e, g1)
      | (Inr y, g1) \<Rightarrow>
          (case map_rng_try f xs g1 of
             (Inl e, g2) \<Rightarrow> (Inl e, g2)
           | (Inr ys, g2) \<Rightarrow> (Inr (y # ys), g2)))"

record country_stats =
  impcntr :: stat
  lrscale :: stat
  agea :: stat

record gender_stats =
  male :: stat
  female :: stat

record demographics =
  gender :: gender_stats
  age_groups :: "(string \<times> stat) list"
  education :: "(string \<times> stat) list"
  political :: "(string \<times> stat) list"

text \<open>One box trace: \<^verbatim>\<open>{y: [...], type: 'box', name: ..., boxpoints: false}\<close>.\<close>

record box =
  box_y :: "real list"
  box_name :: string

text \<open>A box of a fixed number of values, \<^verbatim>\<open>Array.from({length: 1000}, ...)\<close>.\<close>

definition box_of :: "nat \<Rightarrow> real \<Rightarrow> string \<Rightarrow> rng \<Rightarrow> box \<times> rng" where
  "box_of n m name g =
     (case array_from n (jitter m) g of (ys, g1) \<Rightarrow> (\<lparr>box_y = ys, box_name = name\<rparr>, g1))"

text \<open>
  The country plot: one box per country, of \<^verbatim>\<open>stats.impcntr.count\<close> values around
  \<^verbatim>\<open>parseFloat(stats.impcntr.mean)\<close>.
\<close>

definition countryData :: "(string \<times> country_stats) list \<Rightarrow> rng \<Rightarrow> (range_error + box list) \<times> rng" where
  "countryData countryStats =
     map_rng_try (\<lambda>(country, stats) g.
       case array_from_length (count (impcntr stats)) (jitter (parseFloat (mean (impcntr stats)))) g of
         (Inl e, g1) \<Rightarrow> (Inl e, g1)
       | (Inr ys, g1) \<Rightarrow> (Inr \<lparr>box_y = ys, box_name = country\<rparr>, g1))
       countryStats"

definition genderData :: "gender_stats \<Rightarrow> rng \<Rightarrow> box list \<times> rng" where
  "genderData gs g =
     (case box_of 1000 (mean (male gs)) ''Male'' g of (b1, g1) \<Rightarrow>
        (case box_of 1000 (mean (female gs)) ''Female'' g1 of (b2, g2) \<Rightarrow> ([b1, b2], g2)))"

definition ageGroupData :: "(string \<times> stat) list \<Rightarrow> rng \<Rightarrow> box list \<times> rng" where
  "ageGroupData groups = map_rng (\<lambda>(group, stats). box_of 1000 (mean stats) group) groups"

definition educationData :: "(string \<times> stat) list \<Rightarrow> rng \<Rightarrow> box list \<times> rng" where
  "educationData levels = map_rng (\<lambda>(level, stats). box_of 8000 (mean stats) level) levels"

definition politicalData :: "(string \<times> stat) list \<Rightarrow> rng \<Rightarrow> box list \<times> rng" where
  "politicalData orientations =
     map_rng (\<lambda>(orientation, stats). box_of 8000 (mean stats) orientation) orientations"

text \<open>
  The five box plots drawn for one backend response, in the order \<^verbatim>\<open>createCharts\<close> draws
  them: the country plot, then gender, age group, education and political orientation.
  An exception in the country plot ends the rendering.
\<close>

record box_plots =
  country_boxplot :: "box list"
  gender_boxplot :: "box list"
  age_group_boxplot :: "box list"
  education_boxplot :: "box list"
  political_boxplot :: "box list"

definition createBoxPlots ::
    "(string \<times> country_stats) list \<Rightarrow> demographics \<Rightarrow> rng \<Rightarrow> (range_error + box_plots) \<times> rng" where
  "createBoxPlots countryStats d g =
     (case countryData countryStats g of
        (Inl e, g1) \<Rightarrow> (Inl e, g1)
      | (Inr c, g1) \<Rightarrow>
          (case genderData (gender d) g1 of (gd, g2) \<Rightarrow>
           case ageGroupData (age_groups d) g2 of (a, g3) \<Rightarrow>
           case educationData (education d) g3 of (e, g4) \<Rightarrow>
           case politicalData (political d) g4 of (p, g5) \<Rightarrow>
             (Inr \<lparr>country_boxplot = c, gender_boxplot = gd, age_group_boxplot = a,
                   education_boxplot = e, political_boxplot = p\<rparr>, g5)))"

text \<open>
  Two random sources agree on the next n draws.
\<close>

definition agree :: "rng \<Rightarrow> rng \<Rightarrow> nat \<Rightarrow> bool" where
  "agree g g' n = (\<forall>k<n. draws g (drawn g + k) = draws g' (drawn g' + k))"

text \<open>
  The fabricated data written out directly, to compare the code with: n values around m
  are \<^verbatim>\<open>m + (r - 0.5) * 2\<close> for the n random numbers r from position \<^verbatim>\<open>off\<close> on, and
  a plot of several groups (name, mean, number of values) uses consecutive random numbers,
  group after group.
\<close>

definition jitter_values :: "(nat \<Rightarrow> real) \<Rightarrow> nat \<Rightarrow> real \<Rightarrow> nat \<Rightarrow> real list" where
  "jitter_values r off m n = map (\<lambda>k. m + (r (off + k) - 0.5) * 2) [0..<n]"

fun jitter_boxes :: "(nat \<Rightarrow> real) \<Rightarrow> nat \<Rightarrow> (string \<times> real \<times> nat) list \<Rightarrow> box list" where
  "jitter_boxes r off [] = []"
| "jitter_boxes r off ((name, m, n) # groups) =
     \<lparr>box_y = jitter_values r off m n, box_name = name\<rparr> # jitter_boxes r (off + n) groups"

text \<open>
  The groups of the five plots: a country contributes as many values as its count says
  (none for a negative count), the demographic groups a constant 1000 or 8000.
\<close>

definition country_groups :: "(string \<times> country_stats) list \<Rightarrow> (string \<times> real \<times> nat) list" where
  "country_groups countryStats =
     map (\<lambda>(country, stats). (country, mean (impcntr stats), nat (count (impcntr stats)))) countryStats"

definition gender_groups :: "gender_stats \<Rightarrow> (string \<times> real \<times> nat) list" where
  "gender_groups gs = [(''Male'', mean (male gs), 1000), (''Female'', mean (female gs), 1000)]"

definition fixed_groups :: "nat \<Rightarrow> (string \<times> stat) list \<Rightarrow> (string \<times> real \<times> nat) list" where
  "fixed_groups n entries = map (\<lambda>(name, stats). (name, mean stats, n)) entries"

definition country_draws :: "(string \<times> country_stats) list \<Rightarrow> nat" where
  "country_draws countryStats = (\<Sum>(country, stats) \<leftarrow> countryStats. nat (count (impcntr stats)))"

text \<open>The number of values one rendering draws.\<close>

definition draws_used :: "(string \<times> country_stats) list \<Rightarrow> demographics \<Rightarrow> nat" where
  "draws_used countryStats d =
     country_draws countryStats
     + 2000 + 1000 * length (age_groups d) + 8000 * length (education d) + 8000 * length (political d)"

definition expected_plots ::
    "(nat \<Rightarrow> real) \<Rightarrow> nat \<Rightarrow> (string \<times> country_stats) list \<Rightarrow> demographics \<Rightarrow> box_plots" where
  "expected_plots r off countryStats d =
     \<lparr>country_boxplot = jitter_boxes r off (country_groups countryStats),
      gender_boxplot = jitter_boxes r (off + country_draws countryStats) (gender_groups (gender d)),
      age_group_boxplot =
        jitter_boxes r (off + country_draws countryStats + 2000) (fixed_groups 1000 (age_groups d)),
      education_boxplot =
        jitter_boxes r (off + country_draws countryStats + 2000 + 1000 * length (age_groups d))
          (fixed_groups 8000 (education d)),
      political_boxplot =
        jitter_boxes r (off + country_draws countryStats + 2000 + 1000 * length (age_groups d)
                        + 8000 * length (education d))
          (fixed_groups 8000 (political d))\<rparr>"

section \<open>Regression engine (fit) and outlier detection\<close>

text \<open>
  Modelled from the spec: the backend that implements \<^verbatim>\<open>fit\<close> is not among the sources
  (\<^verbatim>\<open>backend.py\<close> is missing), so the engine follows section 4.3 of the specification:
  complete-case rows, an intercept column, the normal equations solved by elimination,
  residuals and R squared, \<^verbatim>\<open>InsufficientDataError\<close> for fewer complete-case rows than
  predictors + 1, \<^verbatim>\<open>SingularDesignMatrixError\<close> when elimination finds no pivot, and
  outliers flagged by standardized residual beyond a fixed threshold. Numbers are reals.
  Standard errors, t and F statistics and their p-values are not modelled.
\<close>

type_synonym observation = "string \<Rightarrow> real option"

type_synonym dataset = "observation list"

datatype fit_error = InsufficientDataError | SingularDesignMatrixError

definition dot :: "real list \<Rightarrow> real list \<Rightarrow> real" where
  "dot xs ys = (\<Sum>(x, y) \<leftarrow> zip xs ys. x * y)"

text \<open>
  The complete cases: the rows with a value for the response and for every predictor, each
  as the response value and the predictor values in order.
\<close>

definition complete_case :: "string \<Rightarrow> string list \<Rightarrow> observation \<Rightarrow> (real \<times> real list) option" where
  "complete_case response predictors obs =
     (case those (map obs (response # predictors)) of
        Some (y # xs) \<Rightarrow> Some (y, xs)
      | _ \<Rightarrow> None)"

definition complete_cases :: "dataset \<Rightarrow> string \<Rightarrow> string list \<Rightarrow> (real \<times> real list) list" where
  "complete_cases ds response predictors = List.map_filter (complete_case response predictors) ds"

text \<open>The design matrix: one row per complete case, the intercept column first.\<close>

definition design_matrix :: "(real \<times> real list) list \<Rightarrow> real list list" where
  "design_matrix cc = map (\<lambda>(y, xs). 1 # xs) cc"

definition col :: "nat \<Rightarrow> real list list \<Rightarrow> real list" where
  "col j X = map (\<lambda>r. r ! j) X"

text \<open>
  The normal equations \<^verbatim>\<open>(X^T X) beta = X^T y\<close> for n unknowns: equation j has the
  coefficients \<^verbatim>\<open>col j . col k\<close> and the right-hand side \<^verbatim>\<open>col j . y\<close>.
\<close>

type_synonym equation = "real list \<times> real"

definition normal_equations :: "nat \<Rightarrow> real list list \<Rightarrow> real list \<Rightarrow> equation list" where
  "normal_equations n X ys =
     map (\<lambda>j. (map (\<lambda>k. dot (col j X) (col k X)) [0..<n], dot (col j X) ys)) [0..<n]"

text \<open>
  Elimination with back substitution. The pivot is the first equation whose leading
  coefficient is not zero; without one the system is singular.
\<close>

fun leading :: "equation \<Rightarrow> real" where
  "leading ([], b) = 0"
| "leading (a # as, b) = a"

fun find_pivot :: "equation list \<Rightarrow> (equation \<times> equation list) option" where
  "find_pivot [] = None"
| "find_pivot (r # rs) =
     (if leading r \<noteq> 0 then Some (r, rs)
      else (case find_pivot rs of None \<Rightarrow> None | Some (p, rest) \<Rightarrow> Some (p, r # rest)))"

definition eliminate :: "equation \<Rightarrow> equation \<Rightarrow> equation" where
  "eliminate p r =
     (let m = leading r / leading p
      in (map2 (\<lambda>c a. c - m * a) (tl (fst r)) (tl (fst p)), snd r - m * snd p))"

fun gauss :: "nat \<Rightarrow> equation list \<Rightarrow> real list option" where
  "gauss 0 eqs = Some []"
| "gauss (Suc n) eqs =
     (case find_pivot eqs of
        None \<Rightarrow> None
      | Some (p, rest) \<Rightarrow>
          (case gauss n (map (eliminate p) rest) of
             None \<Rightarrow> None
           | Some xs \<Rightarrow> Some ((snd p - dot (tl (fst p)) xs) / leading p # xs)))"

text \<open>
  The part of a RegressionResult the properties below are about. R squared is undefined
  when the response does not vary.
\<close>

record regression_result =
  intercept :: real
  coefficients :: "(string \<times> real) list"
  r_squared :: "real option"
  residuals :: "real list"
  excluded :: nat

definition average :: "real list \<Rightarrow> real" where
  "average xs = sum_list xs / real (length xs)"

definition sum_squares :: "real list \<Rightarrow> real" where
  "sum_squares xs = (\<Sum>x \<leftarrow> xs. x * x)"

text \<open>
  Modelled from the spec: \<^verbatim>\<open>fit(dataset, response, predictors)\<close> of section 4.3, whose
  code is missing from the sources. The specification names both failures without ordering
  them; here the row count is checked before the elimination. Elimination over
  predictors + 1 unknowns returns that many values, so the head is the intercept and the
  tail pairs with the predictors.
\<close>

definition fit :: "dataset \<Rightarrow> string \<Rightarrow> string list \<Rightarrow> fit_error + regression_result" where
  "fit ds response predictors =
     (let cc = complete_cases ds response predictors;
          n = length predictors + 1
      in if length cc < n then Inl InsufficientDataError
         else
           let X = design_matrix cc;
               ys = map fst cc
           in case gauss n (normal_equations n X ys) of
                None \<Rightarrow> Inl SingularDesignMatrixError
              | Some beta \<Rightarrow>
                  let es = map2 (\<lambda>y r. y - dot r beta) ys X;
                      sst = sum_squares (map (\<lambda>y. y - average ys) ys)
                  in Inr \<lparr>intercept = hd beta,
                          coefficients = zip predictors (tl beta),
                          r_squared = (if sst = 0 then None else Some (1 - sum_squares es / sst)),
                          residuals = es,
                          excluded = length ds - length cc\<rparr>)"

text \<open>
  Modelled from the spec: the outlier detection of section 4.3, whose code is missing from
  the sources. It runs after the fit: the standardized residual of an observation is its
  residual over the residual standard deviation (residual degrees of freedom: observations
  minus coefficients minus 1); it is undefined when there is no residual spread. An
  observation is flagged when the absolute value exceeds the threshold.
\<close>

definition outlier_threshold :: real where
  "outlier_threshold = 3"

definition standardized :: "regression_result \<Rightarrow> real \<Rightarrow> real option" where
  "standardized res e =
     (let df = length (residuals res) - length (coefficients res) - 1;
          ssr = sum_squares (residuals res)
      in if df = 0 \<or> ssr = 0 then None else Some (e / sqrt (ssr / real df)))"

record outlier_record =
  observation_id :: nat
  score :: real

definition detect_outliers :: "regression_result \<Rightarrow> outlier_record list" where
  "detect_outliers res =
     List.map_filter
       (\<lambda>(i, e). case standardized res e of
                   None \<Rightarrow> None
                 | Some z \<Rightarrow> if \<bar>z\<bar> > outlier_threshold then Some \<lparr>observation_id = i, score = z\<rparr> else None)
       (zip [0..<length (residuals res)] (residuals res))"

text \<open>
  Vectors used to reason about the normal equations: sums and multiples of rows, and
  \<^verbatim>\<open>X^T u\<close> as the sum of the rows of X scaled by the entries of u.
\<close>

definition vadd :: "real list \<Rightarrow> real list \<Rightarrow> real list" where
  "vadd xs ys = map2 (+) xs ys"

definition smult :: "real \<Rightarrow> real list \<Rightarrow> real list" where
  "smult c xs = map ((*) c) xs"

fun tmv :: "nat \<Rightarrow> real list list \<Rightarrow> real list \<Rightarrow> real list" where
  "tmv n (r # X) (u # us) = vadd (smult u r) (tmv n X us)"
| "tmv n X us = replicate n 0"

section \<open>Correlation engine (correlate)\<close>

text \<open>
  Modelled from the spec: the backend that implements \<^verbatim>\<open>correlate\<close> is not among the
  sources, so the engine follows section 4.4 of the specification: each cell uses the
  observations that have both variables (pairwise-complete), the coefficient is the
  product-moment correlation of those pairs, and a cell whose variables do not both vary
  over its pairs is a \<^verbatim>\<open>DegenerateVarianceError\<close> recorded in the cell. Numbers are reals.
\<close>

datatype cell_error = DegenerateVarianceError

definition paired :: "dataset \<Rightarrow> string \<Rightarrow> string \<Rightarrow> (real \<times> real) list" where
  "paired ds a b =
     List.map_filter (\<lambda>obs. case obs a of
                              None \<Rightarrow> None
                            | Some x \<Rightarrow> (case obs b of None \<Rightarrow> None | Some y \<Rightarrow> Some (x, y))) ds"

definition deviations :: "real list \<Rightarrow> real list" where
  "deviations xs = map (\<lambda>x. x - average xs) xs"

text \<open>
  Modelled from the spec: the coefficient of one cell (section 4.4), whose code is missing
  from the sources. With no pairs, or with a variable that does not vary over the pairs,
  the cell is the error.
\<close>

definition pearson :: "(real \<times> real) list \<Rightarrow> cell_error + real" where
  "pearson ps =
     (let dx = deviations (map fst ps);
          dy = deviations (map snd ps);
          sxx = sum_squares dx;
          syy = sum_squares dy
      in if sxx = 0 \<or> syy = 0 then Inl DegenerateVarianceError
         else Inr (dot dx dy / (sqrt sxx * sqrt syy)))"

text \<open>
  Modelled from the spec: \<^verbatim>\<open>correlate(dataset, variables)\<close> of section 4.4, whose code is
  missing from the sources. The matrix has one row per variable and one cell per variable in
  each row.
\<close>

type_synonym correlation_matrix = "(string \<times> (string \<times> (cell_error + real)) list) list"

definition correlate :: "dataset \<Rightarrow> string list \<Rightarrow> correlation_matrix" where
  "correlate ds variables =
     map (\<lambda>a. (a, map (\<lambda>b. (b, pearson (paired ds a b))) variables)) variables"

text \<open>The entry for (a, b), when the matrix has one.\<close>

definition cell :: "correlation_matrix \<Rightarrow> string \<Rightarrow> string \<Rightarrow> (cell_error + real) option" where
  "cell m a b = (case map_of m a of None \<Rightarrow> None | Some row \<Rightarrow> map_of row b)"

text \<open>A variable is degenerate when it does not vary over the observations that have it.\<close>

definition degenerate :: "dataset \<Rightarrow> string \<Rightarrow> bool" where
  "degenerate ds a = (sum_squares (deviations (List.map_filter (\<lambda>obs. obs a) ds)) = 0)"

section \<open>Prompt composer (compose)\<close>

text \<open>
  Modelled from the spec: the backend that implements \<^verbatim>\<open>compose\<close> is not among the
  sources, so the composer follows section 4.5 of the specification: \<^verbatim>\<open>brief\<close> includes
  at most 3 grounding facts, \<^verbatim>\<open>standard\<close> up to 8, \<^verbatim>\<open>deep\<close> the full grounding set
  plus methodology caveats (sample bias, missingness, causal versus correlational framing).
  The facts are taken from the front of the ordered grounding sequence. The result is the
  pair of prompts and nothing else; the system prompt is kept line by line: the instruction
  of the depth, one line per included grounding fact, one line per caveat.
\<close>

datatype depth = Brief | Standard | Deep

definition parse_depth :: "string \<Rightarrow> depth option" where
  "parse_depth s =
     (if s = ''brief'' then Some Brief
      else if s = ''standard'' then Some Standard
      else if s = ''deep'' then Some Deep
      else None)"










section \<open>Properties of the distribution charts\<close>

lemma age_axis_eq: "age_axis = map (\<lambda>n. JNum (real n)) [16..<90]"
proof -
  have "map (\<lambda>n. JNum (real n)) [16..<90] = map (\<lambda>n. JNum (real n)) (map (\<lambda>i. i + 16) [0..<74])"
    using map_add_upt [of 16 74] by simp
  also have "\<dots> = map (\<lambda>i. JNum (real i + 16)) [0..<74]"
    by (simp add: o_def)
  finally show ?thesis
    by (simp add: age_axis_def)
qed

lemma get_prop_object: "get_prop (JObj kvs) k = Inr (case map_of kvs k of None \<Rightarrow> JUndefined | Some v \<Rightarrow> v)"
  by (simp split: option.split)

lemma createDistributionCharts_object:
  assumes "get_prop page_data ''distributions'' = Inr (JObj d)"
  shows "createDistributionCharts page_data = Inr [
         \<lparr>target = ''immigration-dist'', title = ''Distribution of Immigration Attitudes'',
          trace_x = (case map_of d ''immigration'' of None \<Rightarrow> JUndefined | Some v \<Rightarrow> v),
          trace_y = JUndefined,
          trace_type = ''histogram'', trace_name = ''Immigration Attitudes''\<rparr>,
         \<lparr>target = ''political-dist'', title = ''Distribution of Political Orientation'',
          trace_x = (case map_of d ''political'' of None \<Rightarrow> JUndefined | Some v \<Rightarrow> v),
          trace_y = JUndefined,
          trace_type = ''histogram'', trace_name = ''Political Orientation''\<rparr>,
         \<lparr>target = ''age-dist'', title = ''Age Distribution'',
          trace_x = JArr age_axis,
          trace_y = (case map_of d ''age'' of None \<Rightarrow> JUndefined | Some v \<Rightarrow> v),
          trace_type = ''scatter'', trace_name = ''Age Distribution''\<rparr>,
         \<lparr>target = ''education-dist'', title = ''Education Level Distribution'',
          trace_x = JArr education_axis,
          trace_y = (case map_of d ''education'' of None \<Rightarrow> JUndefined | Some v \<Rightarrow> v),
          trace_type = ''bar'', trace_name = ''Education Level''\<rparr>]"
  using assms
  by (simp add: createDistributionCharts_def bind_js_def split: option.split)

text \<open>
  C10. Whatever object the backend sent as \<^verbatim>\<open>distributions\<close>, and whatever its
  \<^verbatim>\<open>age\<close> and \<^verbatim>\<open>education\<close> members are (arrays of any length, or no arrays at all),
  the age trace is drawn against the fixed axis of the 74 ages 16 to 89 and the education
  trace against the seven fixed labels "1" to "7"; the received members are passed through
  as \<^verbatim>\<open>y\<close> unchanged.
\<close>

theorem C10_distribution_axes_fixed:
  assumes "get_prop page_data ''distributions'' = Inr (JObj d)"
  shows "\<exists>p1 p2 p3 p4.
     createDistributionCharts page_data = Inr [p1, p2, p3, p4] \<and>
     target p3 = ''age-dist'' \<and>
     trace_x p3 = JArr (map (\<lambda>n. JNum (real n)) [16..<90]) \<and>
     length [16..<90::nat] = 74 \<and>
     trace_y p3 = (case map_of d ''age'' of None \<Rightarrow> JUndefined | Some v \<Rightarrow> v) \<and>
     target p4 = ''education-dist'' \<and>
     trace_x p4 = JArr (map JStr [''1'', ''2'', ''3'', ''4'', ''5'', ''6'', ''7'']) \<and>
     trace_y p4 = (case map_of d ''education'' of None \<Rightarrow> JUndefined | Some v \<Rightarrow> v)"
proof -
  have len: "length [16..<90::nat] = 74"
    by simp
  have edu: "education_axis = map JStr [''1'', ''2'', ''3'', ''4'', ''5'', ''6'', ''7'']"
    by (simp add: education_axis_def)
  show ?thesis
    unfolding createDistributionCharts_object [OF assms] age_axis_eq edu
    by (intro exI conjI len) (rule refl | simp only: plot.simps)+
qed

text \<open>
  A payload whose age array has three entries and whose education array has two is still
  drawn against the 74 ages and the seven labels.
\<close>

theorem C10_distribution_axes_fixed_witness:
  "\<exists>p1 p2 p3 p4.
     createDistributionCharts
       (JObj [(''total_observations'', JNum 5),
              (''distributions'', JObj [(''age'', JArr [JNum 4, JNum 0, JNum 1]),
                                        (''education'', JArr [JNum 3, JNum 2])])])
       = Inr [p1, p2, p3, p4] \<and>
     trace_x p3 = JArr (map (\<lambda>n. JNum (real n)) [16..<90]) \<and>
     trace_y p3 = JArr [JNum 4, JNum 0, JNum 1] \<and>
     trace_x p4 = JArr (map JStr [''1'', ''2'', ''3'', ''4'', ''5'', ''6'', ''7'']) \<and>
     trace_y p4 = JArr [JNum 3, JNum 2]"
proof -
  have h: "get_prop (JObj [(''total_observations'', JNum 5),
              (''distributions'', JObj [(''age'', JArr [JNum 4, JNum 0, JNum 1]),
                                        (''education'', JArr [JNum 3, JNum 2])])]) ''distributions''
           = Inr (JObj [(''age'', JArr [JNum 4, JNum 0, JNum 1]),
                        (''education'', JArr [JNum 3, JNum 2])])"
    by simp
  from C10_distribution_axes_fixed [OF h] obtain p1 p2 p3 p4 where
    "createDistributionCharts
       (JObj [(''total_observations'', JNum 5),
              (''distributions'', JObj [(''age'', JArr [JNum 4, JNum 0, JNum 1]),
                                        (''education'', JArr [JNum 3, JNum 2])])])
       = Inr [p1, p2, p3, p4]"
    "trace_x p3 = JArr (map (\<lambda>n. JNum (real n)) [16..<90])"
    "trace_y p3 = (case map_of [(''age'', JArr [JNum 4, JNum 0, JNum 1]),
                        (''education'', JArr [JNum 3, JNum 2])] ''age'' of None \<Rightarrow> JUndefined | Some v \<Rightarrow> v)"
    "trace_x p4 = JArr (map JStr [''1'', ''2'', ''3'', ''4'', ''5'', ''6'', ''7''])"
    "trace_y p4 = (case map_of [(''age'', JArr [JNum 4, JNum 0, JNum 1]),
                        (''education'', JArr [JNum 3, JNum 2])] ''education'' of None \<Rightarrow> JUndefined | Some v \<Rightarrow> v)"
    by blast
  moreover have "(case map_of [(''age'', JArr [JNum 4, JNum 0, JNum 1]),
                        (''education'', JArr [JNum 3, JNum 2])] ''age'' of None \<Rightarrow> JUndefined | Some v \<Rightarrow> v)
     = JArr [JNum 4, JNum 0, JNum 1]"
    by simp
  moreover have "(case map_of [(''age'', JArr [JNum 4, JNum 0, JNum 1]),
                        (''education'', JArr [JNum 3, JNum 2])] ''education'' of None \<Rightarrow> JUndefined | Some v \<Rightarrow> v)
     = JArr [JNum 3, JNum 2]"
    by simp
  ultimately show ?thesis
    by (intro exI [of _ p1] exI [of _ p2] exI [of _ p3] exI [of _ p4]) simp
qed

section \<open>Properties of the chat\<close>

lemma sendMessage_nonempty:
  assumes "js_trim (chat_input_field page) \<noteq> []"
  shows "sendMessage fetch page =
     (case sendMessage_try fetch (js_trim (chat_input_field page))
        ((addMessageToChat ''user'' (JStr (js_trim (chat_input_field page))) page)\<lparr>chat_input_field := ''''\<rparr>) of
        (Inr u, page3) \<Rightarrow> page3
      | (Inl error, page3) \<Rightarrow> addMessageToChat ''ai'' (JStr ai_error_text) page3)"
  using assms by (simp add: sendMessage_def Let_def)

text \<open>
  C4. For a non-empty trimmed input, exactly one request is sent; its payload (the value
  given to \<^verbatim>\<open>JSON.stringify\<close>) is the object with \<^verbatim>\<open>message\<close> set to the trimmed
  input and \<^verbatim>\<open>research_depth\<close> set to the selected depth. When the reply has ok status
  and its body parses to a value whose \<^verbatim>\<open>response\<close> member can be read, the chat gains the
  user's message followed by an AI message whose content is exactly that member.
\<close>

theorem C4_request_payload_and_reply:
  assumes "js_trim (chat_input_field page) = message" and "message \<noteq> []"
    and "fetch (ai_request message (research_depth page)) = Resolves r"
    and "ok r" and "json_body r = Inr aiResponse"
    and "get_prop aiResponse ''response'' = Inr reply"
  shows "sent (sendMessage fetch page) = sent page @ [ai_request message (research_depth page)]
     \<and> payload (ai_request message (research_depth page)) =
         JObj [(''message'', JStr message), (''research_depth'', JStr (research_depth page))]
     \<and> chat_messages (sendMessage fetch page) = chat_messages page @
         [\<lparr>className = ''message user-message'', avatar = ''<i class=\"fas fa-user\"></i>'',
           content = JStr message\<rparr>,
          \<lparr>className = ''message ai-message'', avatar = ''<i class=\"fas fa-robot\"></i>'',
           content = reply\<rparr>]"
proof -
  have ne: "js_trim (chat_input_field page) \<noteq> []"
    using assms(1,2) by simp
  show ?thesis
    unfolding sendMessage_nonempty [OF ne]
    using assms
    by (simp add: sendMessage_try_def addMessageToChat_def ai_request_def Let_def)
qed

theorem C4_request_payload_and_reply_witness:
  "js_trim ''  hello '' = ''hello'' \<and>
   sent (sendMessage
     (\<lambda>req. Resolves \<lparr>ok = True, status = 200, json_body = Inr (JObj [(''response'', JStr ''Hi'')])\<rparr>)
     \<lparr>chat_input_field = ''  hello '', research_depth = ''brief'', chat_messages = [], sent = []\<rparr>)
     = [ai_request ''hello'' ''brief''] \<and>
   payload (ai_request ''hello'' ''brief'') =
     JObj [(''message'', JStr ''hello''), (''research_depth'', JStr ''brief'')] \<and>
   chat_messages (sendMessage
     (\<lambda>req. Resolves \<lparr>ok = True, status = 200, json_body = Inr (JObj [(''response'', JStr ''Hi'')])\<rparr>)
     \<lparr>chat_input_field = ''  hello '', research_depth = ''brief'', chat_messages = [], sent = []\<rparr>)
     = [\<lparr>className = ''message user-message'', avatar = ''<i class=\"fas fa-user\"></i>'',
         content = JStr ''hello''\<rparr>,
        \<lparr>className = ''message ai-message'', avatar = ''<i class=\"fas fa-robot\"></i>'',
         content = JStr ''Hi''\<rparr>]"
proof -
  have t: "js_trim (chat_input_field
      \<lparr>chat_input_field = ''  hello '', research_depth = ''brief'', chat_messages = [], sent = []\<rparr>) = ''hello''"
    by (simp add: js_trim_def js_whitespace_def)
  have t': "js_trim ''  hello '' = ''hello''"
    by (simp add: js_trim_def js_whitespace_def)
  show ?thesis
    using t' C4_request_payload_and_reply [OF t, of
        "\<lambda>req. Resolves \<lparr>ok = True, status = 200, json_body = Inr (JObj [(''response'', JStr ''Hi'')])\<rparr>"
        "\<lparr>ok = True, status = 200, json_body = Inr (JObj [(''response'', JStr ''Hi'')])\<rparr>"
        "JObj [(''response'', JStr ''Hi'')]" "JStr ''Hi''"]
    by simp
qed

text \<open>
  The reply of an ok response that is an object without a \<^verbatim>\<open>response\<close> member is not
  a fault for the code: the AI message's content is \<^verbatim>\<open>undefined\<close>.
\<close>

lemma sendMessage_missing_member:
  assumes "js_trim (chat_input_field page) = message" and "message \<noteq> []"
    and "fetch (ai_request message (research_depth page)) = Resolves r"
    and "ok r" and "json_body r = Inr (JObj members)"
    and "map_of members ''response'' = None"
  shows "chat_messages (sendMessage fetch page) = chat_messages page @
         [\<lparr>className = ''message user-message'', avatar = ''<i class=\"fas fa-user\"></i>'',
           content = JStr message\<rparr>,
          \<lparr>className = ''message ai-message'', avatar = ''<i class=\"fas fa-robot\"></i>'',
           content = JUndefined\<rparr>]"
proof -
  have ne: "js_trim (chat_input_field page) \<noteq> []"
    using assms(1,2) by simp
  show ?thesis
    unfolding sendMessage_nonempty [OF ne]
    using assms
    by (simp add: sendMessage_try_def addMessageToChat_def ai_request_def Let_def)
qed

lemma sendMessage_try_failed:
  assumes "ai_call_failed (fetch (ai_request message (research_depth page)))"
  shows "\<exists>e. sendMessage_try fetch message page =
     (Inl e, page\<lparr>sent := sent page @ [ai_request message (research_depth page)]\<rparr>)"
  using assms
  by (auto simp: sendMessage_try_def ai_call_failed_def Let_def
      split: fetch_outcome.splits sum.splits if_splits)

text \<open>
  C5, amended. When the assistant call fails in a way that makes the block throw (the fetch
  rejects, the status is not ok, the body is not JSON, or it parses to \<^verbatim>\<open>null\<close>),
  \<^verbatim>\<open>sendMessage\<close> still returns a page: the exception is caught. The chat then holds the
  user's message, still in place, followed by the fixed apology as the AI's message; the
  input field is cleared and one request was sent. A reply with ok status whose JSON has no
  \<^verbatim>\<open>response\<close> member is not among these failures.
\<close>

theorem C5_failure_caught_and_reported:
  assumes "js_trim (chat_input_field page) = message" and "message \<noteq> []"
    and "ai_call_failed (fetch (ai_request message (research_depth page)))"
  shows "sendMessage fetch page =
     page\<lparr>chat_input_field := '''',
          chat_messages := chat_messages page @
            [\<lparr>className = ''message user-message'', avatar = ''<i class=\"fas fa-user\"></i>'',
              content = JStr message\<rparr>,
             \<lparr>className = ''message ai-message'', avatar = ''<i class=\"fas fa-robot\"></i>'',
              content = JStr ai_error_text\<rparr>],
          sent := sent page @ [ai_request message (research_depth page)]\<rparr>"
proof -
  have ne: "js_trim (chat_input_field page) \<noteq> []"
    using assms(1,2) by simp
  let ?page2 = "(addMessageToChat ''user'' (JStr message) page)\<lparr>chat_input_field := ''''\<rparr>"
  have depth: "research_depth ?page2 = research_depth page"
    by (simp add: addMessageToChat_def)
  from sendMessage_try_failed [of fetch message ?page2] assms(3) depth
  obtain e where e: "sendMessage_try fetch message ?page2 =
      (Inl e, ?page2\<lparr>sent := sent ?page2 @ [ai_request message (research_depth page)]\<rparr>)"
    by auto
  show ?thesis
    unfolding sendMessage_nonempty [OF ne] assms(1) e
    by (simp add: addMessageToChat_def)
qed

theorem C5_failure_caught_and_reported_witness:
  "sendMessage (\<lambda>req. Rejects (TypeError ''Failed to fetch''))
     \<lparr>chat_input_field = ''hi'', research_depth = ''deep'', chat_messages = [], sent = []\<rparr> =
   \<lparr>chat_input_field = '''',
    research_depth = ''deep'',
    chat_messages =
      [\<lparr>className = ''message user-message'', avatar = ''<i class=\"fas fa-user\"></i>'',
        content = JStr ''hi''\<rparr>,
       \<lparr>className = ''message ai-message'', avatar = ''<i class=\"fas fa-robot\"></i>'',
        content = JStr ai_error_text\<rparr>],
    sent = [ai_request ''hi'' ''deep'']\<rparr>"
proof -
  have t: "js_trim (chat_input_field
      \<lparr>chat_input_field = ''hi'', research_depth = ''deep'', chat_messages = [], sent = []\<rparr>) = ''hi''"
    by (simp add: js_trim_def js_whitespace_def)
  have f: "ai_call_failed ((\<lambda>req. Rejects (TypeError ''Failed to fetch''))
      (ai_request ''hi'' (research_depth
        \<lparr>chat_input_field = ''hi'', research_depth = ''deep'', chat_messages = [], sent = []\<rparr>)))"
    by (simp add: ai_call_failed_def)
  show ?thesis
    using C5_failure_caught_and_reported [OF t _ f]
    by simp
qed

text \<open>
  A reply with ok status whose body is the JSON object \<^verbatim>\<open>{"error": "quota"}\<close> breaks the
  reply contract, yet nothing is thrown and no apology is shown: the AI message appended
  after the user's message has the content \<^verbatim>\<open>undefined\<close>.
\<close>

theorem C5_contract_breaking_reply_counterexample:
  "ok \<lparr>ok = True, status = 200, json_body = Inr (JObj [(''error'', JStr ''quota'')])\<rparr>
   \<and> chat_messages (sendMessage
       (\<lambda>req. Resolves \<lparr>ok = True, status = 200, json_body = Inr (JObj [(''error'', JStr ''quota'')])\<rparr>)
       \<lparr>chat_input_field = ''hi'', research_depth = ''deep'', chat_messages = [], sent = []\<rparr>)
     = [\<lparr>className = ''message user-message'', avatar = ''<i class=\"fas fa-user\"></i>'',
         content = JStr ''hi''\<rparr>,
        \<lparr>className = ''message ai-message'', avatar = ''<i class=\"fas fa-robot\"></i>'',
         content = JUndefined\<rparr>]
   \<and> JUndefined \<noteq> JStr ai_error_text"
  by (simp add: sendMessage_def sendMessage_try_def addMessageToChat_def ai_request_def
      js_trim_def js_whitespace_def Let_def)

section \<open>Properties of loadData\<close>

lemma load_json_keeps:
  "load_json fetch path failure s = (r, s1) \<Longrightarrow>
     currentData s1 = currentData s \<and> rendered s1 = rendered s \<and> loading s1 = loading s
     \<and> error_notifications s1 = error_notifications s"
  by (auto simp: load_json_def Let_def split: fetch_outcome.splits if_splits)

lemma load_json_failed:
  "\<not> request_succeeded fetch path \<Longrightarrow> \<exists>e s1. load_json fetch path failure s = (Inl e, s1)"
  by (auto simp: load_json_def request_succeeded_def Let_def split: fetch_outcome.splits sum.splits)

lemma bind_app_failed_first:
  assumes "\<not> request_succeeded fetch path"
  shows "untouched s (bind_app (load_json fetch path failure) f s)"
proof -
  obtain e s1 where e: "load_json fetch path failure s = (Inl e, s1)"
    using load_json_failed [OF assms] by blast
  with load_json_keeps [OF e] show ?thesis
    by (simp add: bind_app_def untouched_def)
qed

lemma bind_app_failed_later:
  assumes "\<And>v s1. currentData s1 = currentData s \<Longrightarrow> rendered s1 = rendered s \<Longrightarrow>
     loading s1 = loading s \<Longrightarrow> error_notifications s1 = error_notifications s \<Longrightarrow>
     untouched s1 (f v s1)"
  shows "untouched s (bind_app (load_json fetch path failure) f s)"
proof (cases "load_json fetch path failure s")
  case (Pair r s1)
  note keeps = load_json_keeps [OF Pair]
  show ?thesis
  proof (cases r)
    case (Inl e)
    with Pair keeps show ?thesis
      by (simp add: bind_app_def untouched_def)
  next
    case (Inr v)
    have "untouched s1 (f v s1)"
      using assms keeps by blast
    with Pair Inr keeps show ?thesis
      by (simp add: bind_app_def untouched_def split: prod.splits sum.splits)
  qed
qed

lemma loadData_try_untouched:
  assumes "\<not> list_all (request_succeeded fetch) endpoints"
  shows "untouched s (loadData_try fetch ui s)"
proof -
  consider "\<not> request_succeeded fetch ''/api/data-overview''"
    | "\<not> request_succeeded fetch ''/api/regression-analysis''"
    | "\<not> request_succeeded fetch ''/api/data-distributions''"
    | "\<not> request_succeeded fetch ''/api/country-analysis''"
    | "\<not> request_succeeded fetch ''/api/demographics-analysis''"
    | "\<not> request_succeeded fetch ''/api/scatter-data''"
    using assms by (auto simp: endpoints_def)
  then show ?thesis
    unfolding loadData_try_def
    by cases
      (rule bind_app_failed_first, assumption
       | rule bind_app_failed_later)+
qed

text \<open>
  When all six requests succeed, the scatter reply is an object and no rendering function
  throws, the page is rendered from the assembled object: the six requests went out in
  order, \<^verbatim>\<open>currentData\<close> is assigned, the three rendering functions ran, the overlay is
  hidden and no error is shown.
\<close>

lemma loadData_all_succeeded:
  assumes "fetch (get_request ''/api/data-overview'') = Resolves r1" "ok r1" "json_body r1 = Inr overview"
    and "fetch (get_request ''/api/regression-analysis'') = Resolves r2" "ok r2" "json_body r2 = Inr regression"
    and "fetch (get_request ''/api/data-distributions'') = Resolves r3" "ok r3" "json_body r3 = Inr distributions"
    and "fetch (get_request ''/api/country-analysis'') = Resolves r4" "ok r4" "json_body r4 = Inr countryStats"
    and "fetch (get_request ''/api/demographics-analysis'') = Resolves r5" "ok r5" "json_body r5 = Inr demographics"
    and "fetch (get_request ''/api/scatter-data'') = Resolves r6" "ok r6" "json_body r6 = Inr scatterData"
    and "assemble overview regression distributions countryStats demographics scatterData = Inr d"
    and "updateMetrics ui d = None" "createCharts ui d = None" "performAnalysis ui d = None"
  shows "loadData fetch ui s =
     s\<lparr>currentData := d, loading := False,
       requested := requested s @ map get_request endpoints,
       rendered := rendered s @ [UpdateMetrics, CreateCharts, PerformAnalysis]\<rparr>"
  using assms
  by (simp add: loadData_def loadData_try_def bind_app_def load_json_def render_def
      showLoading_def hideLoading_def endpoints_def Let_def)

text \<open>
  C9. If any one of the six requests fails (the fetch rejects, the status is not ok, or
  the body is not JSON), \<^verbatim>\<open>loadData\<close> leaves \<^verbatim>\<open>currentData\<close> as it was, calls no
  rendering function, hides the loading overlay and shows one error notification. Hence
  \<^verbatim>\<open>currentData\<close> is assigned and the page rendered only after all six have succeeded.
\<close>

theorem C9_no_render_from_partial_responses:
  assumes "\<not> list_all (request_succeeded fetch) endpoints"
  shows "currentData (loadData fetch ui s) = currentData s
     \<and> rendered (loadData fetch ui s) = rendered s
     \<and> loading (loadData fetch ui s) = False
     \<and> (\<exists>m. error_notifications (loadData fetch ui s) = error_notifications s @ [m])"
proof -
  have "untouched (showLoading s) (loadData_try fetch ui (showLoading s))"
    by (rule loadData_try_untouched [OF assms])
  then show ?thesis
    by (auto simp: untouched_def loadData_def showLoading_def hideLoading_def showError_def
        split: prod.splits sum.splits)
qed

text \<open>
  The regression endpoint answers with status 500 and the other five answer well: nothing
  is rendered from the overview that did arrive.
\<close>

theorem C9_no_render_from_partial_responses_witness:
  "\<not> list_all (request_succeeded
       (\<lambda>req. if url req = API_BASE_URL @ ''/api/regression-analysis''
              then Resolves \<lparr>ok = False, status = 500, json_body = Inl (SyntaxError ''Unexpected token'')\<rparr>
              else Resolves \<lparr>ok = True, status = 200, json_body = Inr (JObj [])\<rparr>)) endpoints
   \<and> currentData (loadData
       (\<lambda>req. if url req = API_BASE_URL @ ''/api/regression-analysis''
              then Resolves \<lparr>ok = False, status = 500, json_body = Inl (SyntaxError ''Unexpected token'')\<rparr>
              else Resolves \<lparr>ok = True, status = 200, json_body = Inr (JObj [])\<rparr>)
       \<lparr>updateMetrics = \<lambda>d. None, createCharts = \<lambda>d. None, performAnalysis = \<lambda>d. None\<rparr>
       \<lparr>currentData = JNull, loading = False, error_notifications = [], requested = [], rendered = []\<rparr>)
     = JNull
   \<and> rendered (loadData
       (\<lambda>req. if url req = API_BASE_URL @ ''/api/regression-analysis''
              then Resolves \<lparr>ok = False, status = 500, json_body = Inl (SyntaxError ''Unexpected token'')\<rparr>
              else Resolves \<lparr>ok = True, status = 200, json_body = Inr (JObj [])\<rparr>)
       \<lparr>updateMetrics = \<lambda>d. None, createCharts = \<lambda>d. None, performAnalysis = \<lambda>d. None\<rparr>
       \<lparr>currentData = JNull, loading = False, error_notifications = [], requested = [], rendered = []\<rparr>)
     = []
   \<and> loading (loadData
       (\<lambda>req. if url req = API_BASE_URL @ ''/api/regression-analysis''
              then Resolves \<lparr>ok = False, status = 500, json_body = Inl (SyntaxError ''Unexpected token'')\<rparr>
              else Resolves \<lparr>ok = True, status = 200, json_body = Inr (JObj [])\<rparr>)
       \<lparr>updateMetrics = \<lambda>d. None, createCharts = \<lambda>d. None, performAnalysis = \<lambda>d. None\<rparr>
       \<lparr>currentData = JNull, loading = False, error_notifications = [], requested = [], rendered = []\<rparr>)
     = False"
proof -
  have h: "\<not> list_all (request_succeeded
       (\<lambda>req. if url req = API_BASE_URL @ ''/api/regression-analysis''
              then Resolves \<lparr>ok = False, status = 500, json_body = Inl (SyntaxError ''Unexpected token'')\<rparr>
              else Resolves \<lparr>ok = True, status = 200, json_body = Inr (JObj [])\<rparr>)) endpoints"
    by (simp add: request_succeeded_def endpoints_def get_request_def)
  show ?thesis
    using h C9_no_render_from_partial_responses [OF h, of
        "\<lparr>updateMetrics = \<lambda>d. None, createCharts = \<lambda>d. None, performAnalysis = \<lambda>d. None\<rparr>"
        "\<lparr>currentData = JNull, loading = False, error_notifications = [], requested = [], rendered = []\<rparr>"]
    by simp
qed

section \<open>Properties of the box plots\<close>

lemma array_from_jitter:
  "array_from n (jitter m) g =
     (jitter_values (draws g) (drawn g) m n, g\<lparr>drawn := drawn g + n\<rparr>)"
proof (induction n arbitrary: g)
  case 0
  show ?case by (simp add: jitter_values_def)
next
  case (Suc n)
  have "[0..<Suc n] = 0 # map Suc [0..<n]"
    by (simp add: upt_conv_Cons map_Suc_upt del: upt_Suc)
  moreover have "jitter m g = (m + (draws g (drawn g) - 0.5) * 2, g\<lparr>drawn := Suc (drawn g)\<rparr>)"
    by (simp add: jitter_def Math_random_def)
  ultimately show ?case
    by (simp add: Suc.IH jitter_values_def o_def del: upt_Suc)
qed

lemma box_of_eq:
  "box_of n m name g =
     (\<lparr>box_y = jitter_values (draws g) (drawn g) m n, box_name = name\<rparr>,
      g\<lparr>drawn := drawn g + n\<rparr>)"
  by (simp add: box_of_def array_from_jitter)

lemma map_rng_boxes:
  "map_rng (\<lambda>e. box_of (len e) (mu e) (nm e)) es g =
     (jitter_boxes (draws g) (drawn g) (map (\<lambda>e. (nm e, mu e, len e)) es),
      g\<lparr>drawn := drawn g + sum_list (map len es)\<rparr>)"
  by (induction es arbitrary: g) (simp_all add: box_of_eq add.assoc)

lemma sum_list_const: "sum_list (map (\<lambda>e. c) es) = c * length (es :: 'a list)" for c :: nat
  by (induction es) simp_all

lemma fixed_boxes:
  "map_rng (\<lambda>(name, stats). box_of n (mean stats) name) es g =
     (jitter_boxes (draws g) (drawn g) (fixed_groups n es), g\<lparr>drawn := drawn g + n * length es\<rparr>)"
proof -
  have "map_rng (\<lambda>(name, stats). box_of n (mean stats) name) es g
      = map_rng (\<lambda>e. box_of n (mean (snd e)) (fst e)) es g"
    by (simp add: case_prod_unfold)
  also have "\<dots> = (jitter_boxes (draws g) (drawn g) (map (\<lambda>e. (fst e, mean (snd e), n)) es),
      g\<lparr>drawn := drawn g + sum_list (map (\<lambda>e. n) es)\<rparr>)"
    by (rule map_rng_boxes)
  finally show ?thesis
    by (simp add: fixed_groups_def case_prod_unfold sum_list_const)
qed

lemma genderData_eq:
  "genderData gs g =
     (jitter_boxes (draws g) (drawn g) (gender_groups gs), g\<lparr>drawn := drawn g + 2000\<rparr>)"
  by (simp add: genderData_def box_of_eq gender_groups_def)

lemma array_from_length_eq:
  assumes "len < 2 ^ 32"
  shows "array_from_length len (jitter m) g =
     (Inr (jitter_values (draws g) (drawn g) m (nat len)), g\<lparr>drawn := drawn g + nat len\<rparr>)"
proof -
  have "to_length len = nat len"
    by (simp add: to_length_def max_def)
  with assms show ?thesis
    by (simp add: array_from_length_def array_from_jitter)
qed

lemma countryData_eq:
  assumes "\<forall>(country, stats)\<in>set countryStats. count (impcntr stats) < 2 ^ 32"
  shows "countryData countryStats g =
     (Inr (jitter_boxes (draws g) (drawn g) (country_groups countryStats)),
      g\<lparr>drawn := drawn g + country_draws countryStats\<rparr>)"
  using assms
proof (induction countryStats arbitrary: g)
  case Nil
  show ?case by (simp add: countryData_def country_groups_def country_draws_def)
next
  case (Cons e es)
  obtain country stats where e: "e = (country, stats)" by (cases e)
  have len: "count (impcntr stats) < 2 ^ 32"
    using Cons.prems e by simp
  have rest: "\<forall>(country, stats)\<in>set es. count (impcntr stats) < 2 ^ 32"
    using Cons.prems by simp
  note ih = Cons.IH [OF rest, unfolded countryData_def parseFloat_def country_groups_def country_draws_def]
  show ?case
    by (simp add: countryData_def e array_from_length_eq [OF len] ih parseFloat_def
        country_groups_def country_draws_def add.assoc)
qed

lemma createBoxPlots_eq:
  assumes "\<forall>(country, stats)\<in>set countryStats. count (impcntr stats) < 2 ^ 32"
  shows "createBoxPlots countryStats d g =
     (Inr (expected_plots (draws g) (drawn g) countryStats d),
      g\<lparr>drawn := drawn g + draws_used countryStats d\<rparr>)"
  by (simp add: createBoxPlots_def countryData_eq [OF assms] genderData_eq
      ageGroupData_def educationData_def politicalData_def fixed_boxes
      expected_plots_def draws_used_def add.assoc)

lemma agree_0: "agree g g' 0"
  by (simp add: agree_def)

lemma agree_add:
  "agree g g' (a + b) \<longleftrightarrow> agree g g' a \<and> agree (g\<lparr>drawn := drawn g + a\<rparr>) (g'\<lparr>drawn := drawn g' + a\<rparr>) b"
proof
  assume h: "agree g g' (a + b)"
  show "agree g g' a \<and> agree (g\<lparr>drawn := drawn g + a\<rparr>) (g'\<lparr>drawn := drawn g' + a\<rparr>) b"
    using h by (auto simp: agree_def add.assoc)
next
  assume h: "agree g g' a \<and> agree (g\<lparr>drawn := drawn g + a\<rparr>) (g'\<lparr>drawn := drawn g' + a\<rparr>) b"
  show "agree g g' (a + b)"
    unfolding agree_def
  proof (intro allI impI)
    fix k assume k: "k < a + b"
    show "draws g (drawn g + k) = draws g' (drawn g' + k)"
    proof (cases "k < a")
      case True
      with h show ?thesis by (simp add: agree_def)
    next
      case False
      then have "k - a < b" "k = a + (k - a)" using k by auto
      from h have "\<forall>j<b. draws g (drawn g + a + j) = draws g' (drawn g' + a + j)"
        by (simp add: agree_def)
      with \<open>k - a < b\<close> have "draws g (drawn g + a + (k - a)) = draws g' (drawn g' + a + (k - a))"
        by blast
      with False show ?thesis by simp
    qed
  qed
qed


lemma jitter_values_eq_iff:
  "jitter_values (draws g) (drawn g) m n = jitter_values (draws g') (drawn g') m n \<longleftrightarrow> agree g g' n"
  by (auto simp: jitter_values_def agree_def)

lemma jitter_boxes_eq_iff:
  "jitter_boxes (draws g) (drawn g) groups = jitter_boxes (draws g') (drawn g') groups
     \<longleftrightarrow> agree g g' (\<Sum>(name, m, n) \<leftarrow> groups. n)"
proof (induction groups arbitrary: g g')
  case Nil
  show ?case by (simp add: agree_0)
next
  case (Cons e groups)
  obtain name m n where e: "e = (name, m, n)" by (cases e)
  let ?h = "g\<lparr>drawn := drawn g + n\<rparr>" and ?h' = "g'\<lparr>drawn := drawn g' + n\<rparr>"
  from Cons.IH [of ?h ?h']
  have ih: "jitter_boxes (draws g) (drawn g + n) groups = jitter_boxes (draws g') (drawn g' + n) groups
      \<longleftrightarrow> agree ?h ?h' (\<Sum>(name, m, n) \<leftarrow> groups. n)"
    by simp
  show ?case
    by (simp add: e jitter_values_eq_iff ih agree_add)
qed

lemma jitter_boxes_shift_eq_iff:
  "jitter_boxes (draws g) (drawn g + off) groups = jitter_boxes (draws g') (drawn g' + off) groups
     \<longleftrightarrow> agree (g\<lparr>drawn := drawn g + off\<rparr>) (g'\<lparr>drawn := drawn g' + off\<rparr>) (\<Sum>(name, m, n) \<leftarrow> groups. n)"
  using jitter_boxes_eq_iff [of "g\<lparr>drawn := drawn g + off\<rparr>" groups "g'\<lparr>drawn := drawn g' + off\<rparr>"]
  by simp

lemma draws_of_groups:
  "(\<Sum>(name, m, n) \<leftarrow> country_groups countryStats. n) = country_draws countryStats"
  "(\<Sum>(name, m, n) \<leftarrow> gender_groups gs. n) = 2000"
  "(\<Sum>(name, m, n) \<leftarrow> fixed_groups k es. n) = k * length es"
proof -
  show "(\<Sum>(name, m, n) \<leftarrow> country_groups countryStats. n) = country_draws countryStats"
    by (induction countryStats) (auto simp: country_groups_def country_draws_def)
  show "(\<Sum>(name, m, n) \<leftarrow> gender_groups gs. n) = 2000"
    by (simp add: gender_groups_def)
  show "(\<Sum>(name, m, n) \<leftarrow> fixed_groups k es. n) = k * length es"
    by (induction es) (auto simp: fixed_groups_def)
qed

lemma expected_plots_eq_iff:
  "expected_plots (draws g) (drawn g) countryStats d = expected_plots (draws g') (drawn g') countryStats d
     \<longleftrightarrow> agree g g' (draws_used countryStats d)"
proof -
  have used: "draws_used countryStats d =
      country_draws countryStats + (2000 + (1000 * length (age_groups d)
        + (8000 * length (education d) + 8000 * length (political d))))"
    by (simp add: draws_used_def)
  show ?thesis
    unfolding used
    by (simp add: expected_plots_def jitter_boxes_eq_iff jitter_boxes_shift_eq_iff [of g _ _ g']
        draws_of_groups agree_add add.assoc)
qed

lemma map_rng_try_throws:
  assumes "x \<in> set xs" and "\<And>g. \<exists>e g1. f x g = (Inl e, g1)"
  shows "\<exists>e g1. map_rng_try f xs g = (Inl e, g1)"
  using assms(1)
proof (induction xs arbitrary: g)
  case Nil
  then show ?case by simp
next
  case (Cons y ys)
  show ?case
  proof (cases "f y g")
    case (Pair r g1)
    show ?thesis
    proof (cases r)
      case (Inl e)
      with Pair show ?thesis by simp
    next
      case (Inr b)
      with Pair assms(2) [of g] have "y \<noteq> x" by auto
      with Cons.prems have "x \<in> set ys" by simp
      from Cons.IH [OF this, of g1] obtain e g2 where "map_rng_try f ys g1 = (Inl e, g2)" by blast
      with Pair Inr show ?thesis by simp
    qed
  qed
qed

text \<open>
  A count of 2^32 or more in any country ends the rendering with a RangeError: no box plot
  is drawn.
\<close>

lemma createBoxPlots_range_error:
  assumes "(country, stats) \<in> set countryStats" and "2 ^ 32 \<le> count (impcntr stats)"
  shows "\<exists>e g1. createBoxPlots countryStats d g = (Inl e, g1)"
proof -
  have "\<exists>e g1. countryData countryStats g = (Inl e, g1)"
    unfolding countryData_def
    by (rule map_rng_try_throws [OF assms(1)]) (use assms(2) in \<open>simp add: array_from_length_def\<close>)
  then show ?thesis
    by (auto simp: createBoxPlots_def)
qed

text \<open>
  C8. The box plots are fabricated: when every country's count is below 2^32 (so that the
  arrays can be created), one rendering of a backend response shows exactly the data
  written out in \<^const>\<open>expected_plots\<close>. Each country's box holds as many values as its
  count says, each demographic box 1000 or 8000 values, and every value is
  \<^verbatim>\<open>mean + (Math.random() - 0.5) * 2\<close> for the group's mean and the next number of the
  random source. Two renderings of the same backend response show the same data exactly when
  their random sources agree on all the draws a rendering makes, and a rendering makes at
  least 2000 draws: the chart data are not a function of the backend output, and what they
  show of the stored observations is only each group's mean and count. A count of 2^32 or
  more ends the rendering with an exception instead.
\<close>

theorem C8_box_plots_are_random_jitter:
  "((\<forall>(country, stats)\<in>set countryStats. count (impcntr stats) < 2 ^ 32) \<longrightarrow>
      createBoxPlots countryStats d g =
        (Inr (expected_plots (draws g) (drawn g) countryStats d),
         g\<lparr>drawn := drawn g + draws_used countryStats d\<rparr>)
      \<and> (fst (createBoxPlots countryStats d g) = fst (createBoxPlots countryStats d g')
             \<longleftrightarrow> agree g g' (draws_used countryStats d)))
   \<and> ((\<exists>(country, stats)\<in>set countryStats. 2 ^ 32 \<le> count (impcntr stats)) \<longrightarrow>
      (\<exists>e g1. createBoxPlots countryStats d g = (Inl e, g1)))
   \<and> 2000 \<le> draws_used countryStats d"
proof (intro conjI impI)
  assume small: "\<forall>(country, stats)\<in>set countryStats. count (impcntr stats) < 2 ^ 32"
  show "createBoxPlots countryStats d g =
       (Inr (expected_plots (draws g) (drawn g) countryStats d),
        g\<lparr>drawn := drawn g + draws_used countryStats d\<rparr>)"
    by (rule createBoxPlots_eq [OF small])
  show "fst (createBoxPlots countryStats d g) = fst (createBoxPlots countryStats d g')
            \<longleftrightarrow> agree g g' (draws_used countryStats d)"
    by (simp add: createBoxPlots_eq [OF small] expected_plots_eq_iff)
next
  assume "\<exists>(country, stats)\<in>set countryStats. 2 ^ 32 \<le> count (impcntr stats)"
  then obtain country stats where "(country, stats) \<in> set countryStats"
    and "2 ^ 32 \<le> count (impcntr stats)"
    by auto
  then show "\<exists>e g1. createBoxPlots countryStats d g = (Inl e, g1)"
    by (rule createBoxPlots_range_error)
next
  show "2000 \<le> draws_used countryStats d"
    by (simp add: draws_used_def)
qed

text \<open>
  One backend response with a single country of count 3 and mean 2, and two random sources
  (one returns 0 every time, the other 1/2): with the first the country's box holds three
  times the value 2 + (0 - 0.5) * 2 = 1, and the two renderings differ.
\<close>

theorem C8_box_plots_are_random_jitter_witness:
  "(\<exists>plots g1. createBoxPlots
        [(''DE'', \<lparr>impcntr = \<lparr>mean = 2, count = 3\<rparr>, lrscale = \<lparr>mean = 5, count = 3\<rparr>,
                  agea = \<lparr>mean = 40, count = 3\<rparr>\<rparr>)]
        \<lparr>gender = \<lparr>male = \<lparr>mean = 2, count = 2\<rparr>, female = \<lparr>mean = 3, count = 1\<rparr>\<rparr>,
         age_groups = [], education = [], political = []\<rparr>
        \<lparr>draws = \<lambda>k. 0, drawn = 0\<rparr> = (Inr plots, g1)
      \<and> country_boxplot plots = [\<lparr>box_y = [1, 1, 1], box_name = ''DE''\<rparr>]
      \<and> drawn g1 = 2003)
   \<and> fst (createBoxPlots
        [(''DE'', \<lparr>impcntr = \<lparr>mean = 2, count = 3\<rparr>, lrscale = \<lparr>mean = 5, count = 3\<rparr>,
                  agea = \<lparr>mean = 40, count = 3\<rparr>\<rparr>)]
        \<lparr>gender = \<lparr>male = \<lparr>mean = 2, count = 2\<rparr>, female = \<lparr>mean = 3, count = 1\<rparr>\<rparr>,
         age_groups = [], education = [], political = []\<rparr>
        \<lparr>draws = \<lambda>k. 0, drawn = 0\<rparr>)
     \<noteq> fst (createBoxPlots
        [(''DE'', \<lparr>impcntr = \<lparr>mean = 2, count = 3\<rparr>, lrscale = \<lparr>mean = 5, count = 3\<rparr>,
                  agea = \<lparr>mean = 40, count = 3\<rparr>\<rparr>)]
        \<lparr>gender = \<lparr>male = \<lparr>mean = 2, count = 2\<rparr>, female = \<lparr>mean = 3, count = 1\<rparr>\<rparr>,
         age_groups = [], education = [], political = []\<rparr>
        \<lparr>draws = \<lambda>k. 1 / 2, drawn = 0\<rparr>)"
proof -
  let ?cs = "[(''DE'', \<lparr>impcntr = \<lparr>mean = 2, count = 3\<rparr>, lrscale = \<lparr>mean = 5, count = 3\<rparr>,
                  agea = \<lparr>mean = 40, count = 3\<rparr>\<rparr>)]"
  let ?d = "\<lparr>gender = \<lparr>male = \<lparr>mean = 2, count = 2\<rparr>, female = \<lparr>mean = 3, count = 1\<rparr>\<rparr>,
         age_groups = [], education = [], political = []\<rparr>"
  let ?g = "\<lparr>draws = \<lambda>k. 0 :: real, drawn = 0\<rparr>"
  let ?g' = "\<lparr>draws = \<lambda>k. 1 / 2 :: real, drawn = 0\<rparr>"
  have h: "\<forall>(country, stats)\<in>set ?cs. count (impcntr stats) < 2 ^ 32"
    by simp
  note t = C8_box_plots_are_random_jitter [of ?cs ?d ?g ?g', THEN conjunct1, THEN mp, OF h]
  have used: "draws_used ?cs ?d = 2003"
    by (simp add: draws_used_def country_draws_def)
  have c: "country_boxplot (expected_plots (draws ?g) (drawn ?g) ?cs ?d) = [\<lparr>box_y = [1, 1, 1], box_name = ''DE''\<rparr>]"
    by (simp add: expected_plots_def country_groups_def jitter_values_def upt_rec)
  have first: "\<exists>plots g1. createBoxPlots ?cs ?d ?g = (Inr plots, g1)
      \<and> country_boxplot plots = [\<lparr>box_y = [1, 1, 1], box_name = ''DE''\<rparr>] \<and> drawn g1 = 2003"
    using t [THEN conjunct1] c used by simp
  have "\<not> agree ?g ?g' 2003"
    by (auto simp: agree_def intro: exI [of _ 0])
  then have "fst (createBoxPlots ?cs ?d ?g) \<noteq> fst (createBoxPlots ?cs ?d ?g')"
    using t [THEN conjunct2] used by simp
  with first show ?thesis
    by (intro conjI)
qed

section \<open>Properties of the regression engine\<close>

lemma dot_Nil [simp]: "dot [] ys = 0" "dot xs [] = 0"
  by (simp_all add: dot_def)

lemma dot_Cons [simp]: "dot (x # xs) (y # ys) = x * y + dot xs ys"
  by (simp add: dot_def)

lemma dot_commute: "dot xs ys = dot ys xs"
proof (induction xs arbitrary: ys)
  case Nil
  show ?case by simp
next
  case (Cons x xs)
  then show ?case by (cases ys) simp_all
qed

lemma dot_replicate_0 [simp]: "dot xs (replicate n 0) = 0"
proof (induction xs arbitrary: n)
  case Nil
  show ?case by simp
next
  case (Cons x xs)
  then show ?case by (cases n) simp_all
qed

lemma dot_vadd:
  "length xs = length ks \<Longrightarrow> dot c (vadd xs ks) = dot c xs + dot c ks"
proof (induction xs ks arbitrary: c rule: list_induct2)
  case Nil
  show ?case by (simp add: vadd_def)
next
  case (Cons x xs k ks)
  from Cons.IH have ih: "dot c' (vadd xs ks) = dot c' xs + dot c' ks" for c' .
  show ?case
  proof (cases c)
    case Nil
    then show ?thesis by simp
  next
    case (Cons a as)
    with ih [of as] show ?thesis
      by (simp add: vadd_def algebra_simps)
  qed
qed

lemma dot_map2_sub:
  "length cs = length as \<Longrightarrow> dot (map2 (\<lambda>c a. c - m * a) cs as) w = dot cs w - m * dot as w"
proof (induction cs as arbitrary: w rule: list_induct2)
  case Nil
  show ?case by simp
next
  case (Cons c cs a as)
  show ?case
  proof (cases w)
    case Nil
    then show ?thesis by simp
  next
    case (Cons w0 ws)
    with Cons.IH [of ws] show ?thesis
      by (simp add: algebra_simps)
  qed
qed

lemma find_pivot_Some:
  "find_pivot eqs = Some (p, rest) \<Longrightarrow>
     leading p \<noteq> 0 \<and> set eqs = insert p (set rest) \<and> length eqs = Suc (length rest)"
proof (induction eqs arbitrary: p rest)
  case Nil
  then show ?case by simp
next
  case (Cons r rs)
  show ?case
  proof (cases "leading r \<noteq> 0")
    case True
    with Cons.prems show ?thesis by auto
  next
    case False
    with Cons.prems obtain rest' where f: "find_pivot rs = Some (p, rest')" and r: "rest = r # rest'"
      by (auto split: option.splits)
    from Cons.IH [OF f] r show ?thesis by auto
  qed
qed

lemma find_pivot_None:
  "find_pivot eqs = None \<Longrightarrow> \<forall>e\<in>set eqs. leading e = 0"
  by (induction eqs) (auto split: if_splits option.splits)

lemma eliminate_shape:
  assumes "length (fst p) = Suc n" "length (fst r) = Suc n"
  shows "length (fst (eliminate p r)) = n"
  using assms by (simp add: eliminate_def Let_def)

lemma eliminate_dot:
  assumes "fst p = a # as" "fst r = c # cs" "length as = length cs"
  shows "dot (fst (eliminate p r)) w = dot cs w - (c / a) * dot as w"
    and "snd (eliminate p r) = snd r - (c / a) * snd p"
proof -
  have lp: "leading p = a" using assms(1) by (cases p) simp
  have lr: "leading r = c" using assms(2) by (cases r) simp
  show "dot (fst (eliminate p r)) w = dot cs w - (c / a) * dot as w"
    using assms dot_map2_sub [of cs as "c / a" w]
    by (simp add: eliminate_def Let_def lp lr)
  show "snd (eliminate p r) = snd r - (c / a) * snd p"
    by (simp add: eliminate_def Let_def lp lr)
qed

lemma gauss_sound:
  "gauss n eqs = Some xs \<Longrightarrow> length eqs = n \<Longrightarrow> \<forall>e\<in>set eqs. length (fst e) = n \<Longrightarrow>
     length xs = n \<and> (\<forall>e\<in>set eqs. dot (fst e) xs = snd e)"
proof (induction n arbitrary: eqs xs)
  case 0
  then show ?case by simp
next
  case (Suc n)
  from Suc.prems(1) obtain p rest xs' where
    piv: "find_pivot eqs = Some (p, rest)" and
    sub: "gauss n (map (eliminate p) rest) = Some xs'" and
    xs: "xs = (snd p - dot (tl (fst p)) xs') / leading p # xs'"
    by (auto split: option.splits)
  from find_pivot_Some [OF piv] have
    lead: "leading p \<noteq> 0" and mem: "set eqs = insert p (set rest)" and len: "length eqs = Suc (length rest)"
    by auto
  have shp: "length (fst p) = Suc n" using Suc.prems(3) mem by auto
  then obtain a as where p: "fst p = a # as" and las: "length as = n"
    by (cases "fst p") auto
  have a: "leading p = a" "a \<noteq> 0"
    using p lead by (cases p; simp)+
  have shape: "\<forall>e\<in>set (map (eliminate p) rest). length (fst e) = n"
    using eliminate_shape [OF shp] Suc.prems(3) mem by auto
  have "length (map (eliminate p) rest) = n"
    using len Suc.prems(2) by simp
  from Suc.IH [OF sub this shape] have
    lxs: "length xs' = n" and ih: "\<forall>e\<in>set rest. dot (fst (eliminate p e)) xs' = snd (eliminate p e)"
    by auto
  let ?x0 = "(snd p - dot as xs') / a"
  have xs_eq: "xs = ?x0 # xs'"
    using xs p a by simp
  have pivot_ok: "dot (fst p) xs = snd p"
    using a by (simp add: xs_eq p)
  have rest_ok: "dot (fst e) xs = snd e" if e: "e \<in> set rest" for e
  proof -
    have "length (fst e) = Suc n" using Suc.prems(3) mem e by auto
    then obtain c cs where ec: "fst e = c # cs" and lcs: "length cs = n"
      by (cases "fst e") auto
    from eliminate_dot(1) [OF p ec, where w = xs'] eliminate_dot(2) [OF p ec] las lcs ih e
    have "dot cs xs' - (c / a) * dot as xs' = snd e - (c / a) * snd p"
      by simp
    then show ?thesis
      using a by (simp add: xs_eq ec field_simps)
  qed
  show ?case
    using pivot_ok rest_ok lxs mem by (auto simp: xs_eq)
qed

lemma gauss_unique:
  "gauss n eqs = Some xs \<Longrightarrow> length eqs = n \<Longrightarrow> \<forall>e\<in>set eqs. length (fst e) = n \<Longrightarrow>
     length v = n \<Longrightarrow> \<forall>e\<in>set eqs. dot (fst e) v = snd e \<Longrightarrow> v = xs"
proof (induction n arbitrary: eqs xs v)
  case 0
  then show ?case by simp
next
  case (Suc n)
  from Suc.prems(1) obtain p rest xs' where
    piv: "find_pivot eqs = Some (p, rest)" and
    sub: "gauss n (map (eliminate p) rest) = Some xs'" and
    xs: "xs = (snd p - dot (tl (fst p)) xs') / leading p # xs'"
    by (auto split: option.splits)
  from find_pivot_Some [OF piv] have
    lead: "leading p \<noteq> 0" and mem: "set eqs = insert p (set rest)" and len: "length eqs = Suc (length rest)"
    by auto
  have shp: "length (fst p) = Suc n" using Suc.prems(3) mem by auto
  then obtain a as where p: "fst p = a # as" and las: "length as = n"
    by (cases "fst p") auto
  have a: "leading p = a" "a \<noteq> 0"
    using p lead by (cases p; simp)+
  obtain v0 v' where v: "v = v0 # v'" and lv: "length v' = n"
    using Suc.prems(4) by (cases v) auto
  have pv: "a * v0 + dot as v' = snd p"
    using Suc.prems(5) mem p v by auto
  have shape: "\<forall>e\<in>set (map (eliminate p) rest). length (fst e) = n"
    using eliminate_shape [OF shp] Suc.prems(3) mem by auto
  have lenr: "length (map (eliminate p) rest) = n"
    using len Suc.prems(2) by simp
  have red: "\<forall>e\<in>set (map (eliminate p) rest). dot (fst e) v' = snd e"
  proof
    fix e' assume "e' \<in> set (map (eliminate p) rest)"
    then obtain e where e: "e \<in> set rest" and e': "e' = eliminate p e" by auto
    have "length (fst e) = Suc n" using Suc.prems(3) mem e by auto
    then obtain c cs where ec: "fst e = c # cs" and lcs: "length cs = n"
      by (cases "fst e") auto
    have ev: "c * v0 + dot cs v' = snd e"
      using Suc.prems(5) mem e ec v by auto
    have "dot (fst e') v' = dot cs v' - (c / a) * dot as v'"
      unfolding e' using eliminate_dot(1) [OF p ec, where w = v'] las lcs by simp
    also have "\<dots> = (snd e - c * v0) - (c / a) * (snd p - a * v0)"
    proof -
      have "dot cs v' = snd e - c * v0" using ev by linarith
      moreover have "dot as v' = snd p - a * v0" using pv by linarith
      ultimately show ?thesis by (simp only:)
    qed
    also have "\<dots> = snd e - (c / a) * snd p"
      using a by (simp add: field_simps)
    also have "\<dots> = snd e'"
      unfolding e' using eliminate_dot(2) [OF p ec] las lcs by simp
    finally show "dot (fst e') v' = snd e'" .
  qed
  from Suc.IH [OF sub lenr shape lv red] have v': "v' = xs'" .
  have "v0 = (snd p - dot as xs') / a"
    using pv a v' by (simp add: field_simps)
  then show ?case
    using xs p a v v' by simp
qed

lemma gauss_complete:
  "length eqs = n \<Longrightarrow> \<forall>e\<in>set eqs. length (fst e) = n \<Longrightarrow>
   (\<And>v. length v = n \<Longrightarrow> \<forall>e\<in>set eqs. dot (fst e) v = 0 \<Longrightarrow> v = replicate n 0) \<Longrightarrow>
   gauss n eqs \<noteq> None"
proof (induction n arbitrary: eqs)
  case 0
  show ?case by simp
next
  case (Suc n)
  have "find_pivot eqs \<noteq> None"
  proof
    assume "find_pivot eqs = None"
    from find_pivot_None [OF this] have z: "\<forall>e\<in>set eqs. leading e = 0" .
    have "dot (fst e) (1 # replicate n 0) = 0" if "e \<in> set eqs" for e
    proof -
      have "length (fst e) = Suc n" using Suc.prems(2) that by auto
      then obtain c cs where ec: "fst e = c # cs" by (cases "fst e") auto
      then have "leading e = c" by (cases e) simp
      with z that ec show ?thesis by simp
    qed
    then have "1 # replicate n 0 = replicate (Suc n) (0::real)"
      using Suc.prems(3) [of "1 # replicate n 0"] by simp
    then show False by simp
  qed
  then obtain p rest where piv: "find_pivot eqs = Some (p, rest)" by auto
  from find_pivot_Some [OF piv] have
    lead: "leading p \<noteq> 0" and mem: "set eqs = insert p (set rest)" and len: "length eqs = Suc (length rest)"
    by auto
  have shp: "length (fst p) = Suc n" using Suc.prems(2) mem by auto
  then obtain a as where p: "fst p = a # as" and las: "length as = n"
    by (cases "fst p") auto
  have a: "leading p = a" "a \<noteq> 0"
    using p lead by (cases p; simp)+
  have shape: "\<forall>e\<in>set (map (eliminate p) rest). length (fst e) = n"
    using eliminate_shape [OF shp] Suc.prems(2) mem by auto
  have lenr: "length (map (eliminate p) rest) = n"
    using len Suc.prems(1) by simp
  have ker: "w = replicate n 0"
    if lw: "length w = n" and w: "\<forall>e\<in>set (map (eliminate p) rest). dot (fst e) w = 0" for w
  proof -
    let ?v = "(- dot as w / a) # w"
    have pv: "dot (fst p) ?v = 0"
      using a by (simp add: p)
    have rv: "dot (fst e) ?v = 0" if e: "e \<in> set rest" for e
    proof -
      have "length (fst e) = Suc n" using Suc.prems(2) mem e by auto
      then obtain c cs where ec: "fst e = c # cs" and lcs: "length cs = n"
        by (cases "fst e") auto
      have "dot (fst (eliminate p e)) w = 0" using w e by simp
      with eliminate_dot(1) [OF p ec, where w = w] las lcs
      have "dot cs w - (c / a) * dot as w = 0" by simp
      then show ?thesis
        using a by (simp add: ec field_simps)
    qed
    have "?v = replicate (Suc n) 0"
      using Suc.prems(3) [of ?v] pv rv mem lw by auto
    then show ?thesis by simp
  qed
  from Suc.IH [OF lenr shape ker] show ?case
    using piv by (auto split: option.splits)
qed

lemma length_tmv:
  "\<forall>r\<in>set X. length r = n \<Longrightarrow> length (tmv n X u) = n"
  by (induction n X u rule: tmv.induct) (simp_all add: vadd_def smult_def)

lemma tmv_nth:
  "\<forall>r\<in>set X. length r = n \<Longrightarrow> length u = length X \<Longrightarrow> j < n \<Longrightarrow>
     tmv n X u ! j = dot (col j X) u"
proof (induction n X u rule: tmv.induct)
  case (1 n r X u us)
  have "length (tmv n X us) = n"
    using 1 by (simp add: length_tmv)
  then show ?case
    using 1 by (simp add: vadd_def smult_def col_def)
qed (simp_all add: col_def)

lemma dot_smult: "dot (smult c xs) v = c * dot xs v"
proof (induction xs arbitrary: v)
  case Nil
  show ?case by (simp add: smult_def)
next
  case (Cons x xs)
  from Cons.IH have ih: "dot (smult c xs) v' = c * dot xs v'" for v' .
  show ?case
    by (cases v) (use ih in \<open>simp_all add: smult_def algebra_simps\<close>)
qed

lemma dot_tmv:
  "\<forall>r\<in>set X. length r = n \<Longrightarrow> length u = length X \<Longrightarrow>
     dot (tmv n X u) v = dot u (map (\<lambda>r. dot r v) X)"
proof (induction n X u rule: tmv.induct)
  case (1 n r X u us)
  have l: "length (smult u r) = length (tmv n X us)"
    using 1 by (simp add: length_tmv smult_def)
  have "dot (vadd (smult u r) (tmv n X us)) v = dot (smult u r) v + dot (tmv n X us) v"
    using dot_vadd [OF l, of v] by (simp add: dot_commute)
  then show ?case
    using 1 by (simp add: dot_smult)
qed (simp_all add: dot_commute [of "replicate n 0" for n])

lemma normal_equations_shape:
  "length (normal_equations n X ys) = n"
  "\<forall>e\<in>set (normal_equations n X ys). length (fst e) = n"
  by (auto simp: normal_equations_def)

lemma normal_row:
  assumes "\<forall>r\<in>set X. length r = n" "j < n"
  shows "map (\<lambda>k. dot (col j X) (col k X)) [0..<n] = tmv n X (col j X)"
proof (rule nth_equalityI)
  show "length (map (\<lambda>k. dot (col j X) (col k X)) [0..<n]) = length (tmv n X (col j X))"
    using assms(1) by (simp add: length_tmv)
next
  fix k assume "k < length (map (\<lambda>k. dot (col j X) (col k X)) [0..<n])"
  then have k: "k < n" by simp
  have "tmv n X (col j X) ! k = dot (col k X) (col j X)"
    using tmv_nth [OF assms(1) _ k, of "col j X"] by (simp add: col_def)
  with k show "map (\<lambda>k. dot (col j X) (col k X)) [0..<n] ! k = tmv n X (col j X) ! k"
    by (simp add: dot_commute)
qed

lemma normal_equations_dot:
  assumes "\<forall>r\<in>set X. length r = n" "e \<in> set (normal_equations n X ys)"
  shows "\<exists>j<n. dot (fst e) v = dot (col j X) (map (\<lambda>r. dot r v) X) \<and> snd e = dot (col j X) ys"
proof -
  from assms(2) obtain j where j: "j < n"
    and e: "e = (map (\<lambda>k. dot (col j X) (col k X)) [0..<n], dot (col j X) ys)"
    by (auto simp: normal_equations_def)
  have "dot (fst e) v = dot (tmv n X (col j X)) v"
    using normal_row [OF assms(1) j] e by simp
  also have "\<dots> = dot (col j X) (map (\<lambda>r. dot r v) X)"
    using dot_tmv [OF assms(1), of "col j X" v] by (simp add: col_def)
  finally show ?thesis
    using j e by auto
qed

lemma normal_solution:
  assumes "\<forall>r\<in>set X. length r = n" "map (\<lambda>r. dot r b) X = ys"
  shows "\<forall>e\<in>set (normal_equations n X ys). dot (fst e) b = snd e"
proof
  fix e assume e: "e \<in> set (normal_equations n X ys)"
  from normal_equations_dot [OF assms(1) e, of b] show "dot (fst e) b = snd e"
    by (auto simp: assms(2))
qed

lemma dot_self_zero: "dot u u = 0 \<Longrightarrow> \<forall>x\<in>set u. x = 0"
proof (induction u)
  case Nil
  show ?case by simp
next
  case (Cons x u)
  have nonneg: "0 \<le> dot w w" for w
    by (induction w) simp_all
  from Cons.prems have "x * x + dot u u = 0" by simp
  with nonneg [of u] have "x * x = 0" "dot u u = 0"
    by (smt (verit) zero_le_square)+
  with Cons.IH show ?case by simp
qed

lemma design_kernel_of_normal:
  assumes X: "\<forall>r\<in>set X. length r = n" and v: "length v = n"
    and z: "\<forall>e\<in>set (normal_equations n X ys). dot (fst e) v = 0"
  shows "\<forall>r\<in>set X. dot r v = 0"
proof -
  let ?u = "map (\<lambda>r. dot r v) X"
  have "tmv n X ?u = replicate n 0"
  proof (rule nth_equalityI)
    show "length (tmv n X ?u) = length (replicate n (0::real))"
      using X by (simp add: length_tmv)
  next
    fix j assume "j < length (tmv n X ?u)"
    then have j: "j < n" using X by (simp add: length_tmv)
    have "(map (\<lambda>k. dot (col j X) (col k X)) [0..<n], dot (col j X) ys) \<in> set (normal_equations n X ys)"
      using j by (auto simp: normal_equations_def)
    with z have "dot (map (\<lambda>k. dot (col j X) (col k X)) [0..<n]) v = 0"
      by fastforce
    then have "dot (col j X) ?u = 0"
      using normal_row [OF X j] dot_tmv [OF X, of "col j X" v] by (simp add: col_def)
    then show "tmv n X ?u ! j = replicate n 0 ! j"
      using tmv_nth [OF X _ j, of ?u] j by simp
  qed
  then have "dot (tmv n X ?u) v = 0"
    by (simp add: dot_commute [of "replicate n 0"])
  then have "dot ?u ?u = 0"
    using dot_tmv [OF X, of ?u v] by simp
  from dot_self_zero [OF this] show ?thesis
    by simp
qed

lemma those_eq_Some: "those zs = Some ws \<longleftrightarrow> zs = map Some ws"
proof (induction zs arbitrary: ws)
  case Nil
  show ?case by auto
next
  case (Cons z zs)
  show ?case
  proof (cases z)
    case None
    then show ?thesis by auto
  next
    case (Some a)
    with Cons.IH show ?thesis
      by (cases ws) (auto split: option.splits)
  qed
qed

lemma complete_case_Some:
  "complete_case response predictors obs = Some (y, xs)
     \<longleftrightarrow> obs response = Some y \<and> map obs predictors = map Some xs"
proof -
  have "those (map obs (response # predictors)) = Some (y # xs)
      \<longleftrightarrow> obs response = Some y \<and> map obs predictors = map Some xs"
    unfolding those_eq_Some by auto
  moreover have "complete_case response predictors obs = Some (y, xs)
      \<longleftrightarrow> those (map obs (response # predictors)) = Some (y # xs)"
    by (auto simp: complete_case_def split: option.splits list.splits)
  ultimately show ?thesis by simp
qed

lemma set_complete_cases:
  "set (complete_cases ds response predictors) =
     {(y, xs). \<exists>obs\<in>set ds. obs response = Some y \<and> map obs predictors = map Some xs}"
proof -
  have "set (List.map_filter f zs) = {w. \<exists>z\<in>set zs. f z = Some w}" for f :: "observation \<Rightarrow> (real \<times> real list) option" and zs
    by (induction zs) (auto simp: List.map_filter_simps split: option.splits)
  then show ?thesis
    by (auto simp: complete_cases_def complete_case_Some)
qed

lemma design_matrix_shape:
  "\<forall>r\<in>set (design_matrix (complete_cases ds response predictors)). length r = Suc (length predictors)"
proof
  fix r assume "r \<in> set (design_matrix (complete_cases ds response predictors))"
  then obtain y xs where "(y, xs) \<in> set (complete_cases ds response predictors)" and r: "r = 1 # xs"
    by (auto simp: design_matrix_def)
  from \<open>(y, xs) \<in> set (complete_cases ds response predictors)\<close>
  obtain obs where "map obs predictors = map Some xs"
    by (auto simp: set_complete_cases)
  then have "length predictors = length xs"
    by (metis length_map)
  with r show "length r = Suc (length predictors)" by simp
qed

lemma sum_squares_dot: "sum_squares u = dot u u"
  by (induction u) (simp_all add: sum_squares_def)

lemma map_filter_None: "List.map_filter (\<lambda>z. None) zs = []"
  by (induction zs) (simp_all add: List.map_filter_simps)

lemma length_ge_2:
  assumes "a \<in> set zs" "b \<in> set zs" "a \<noteq> b"
  shows "2 \<le> length zs"
proof -
  have "card {a, b} \<le> card (set zs)"
    using assms by (intro card_mono) auto
  also have "\<dots> \<le> length zs" by (rule card_length)
  finally show ?thesis using assms(3) by simp
qed

lemma fit_solved:
  assumes "\<not> length (complete_cases ds response predictors) < length predictors + 1"
    and "gauss (length predictors + 1)
           (normal_equations (length predictors + 1)
              (design_matrix (complete_cases ds response predictors))
              (map fst (complete_cases ds response predictors))) = Some beta"
  shows "fit ds response predictors =
     Inr \<lparr>intercept = hd beta,
          coefficients = zip predictors (tl beta),
          r_squared =
            (if sum_squares (map (\<lambda>y. y - average (map fst (complete_cases ds response predictors)))
                  (map fst (complete_cases ds response predictors))) = 0 then None
             else Some (1 - sum_squares (map2 (\<lambda>y r. y - dot r beta)
                     (map fst (complete_cases ds response predictors))
                     (design_matrix (complete_cases ds response predictors)))
                   / sum_squares (map (\<lambda>y. y - average (map fst (complete_cases ds response predictors)))
                       (map fst (complete_cases ds response predictors))))),
          residuals = map2 (\<lambda>y r. y - dot r beta)
                     (map fst (complete_cases ds response predictors))
                     (design_matrix (complete_cases ds response predictors)),
          excluded = length ds - length (complete_cases ds response predictors)\<rparr>"
  using assms by (simp add: fit_def Let_def)

text \<open>
  C3. When every observation that has both values satisfies \<^verbatim>\<open>y = 2 * x + 1\<close> and the
  regression preconditions hold (two complete cases with different x, hence at least two
  complete cases and a predictor that varies), \<^verbatim>\<open>fit\<close> returns a result with intercept 1,
  coefficient 2 and R squared 1; all residuals are 0 and outlier detection flags nothing.
  Over the reals the values are exact.
\<close>

theorem C3_exact_line_fit:
  assumes rel: "\<forall>obs\<in>set ds. \<forall>x y. obs xvar = Some x \<longrightarrow> obs yvar = Some y \<longrightarrow> y = 2 * x + 1"
    and o1: "obs1 \<in> set ds" "obs1 xvar = Some xa" "obs1 yvar = Some ya"
    and o2: "obs2 \<in> set ds" "obs2 xvar = Some xb" "obs2 yvar = Some yb"
    and ne: "xa \<noteq> xb"
  shows "\<exists>res. fit ds yvar [xvar] = Inr res
     \<and> intercept res = 1 \<and> coefficients res = [(xvar, 2)] \<and> r_squared res = Some 1
     \<and> residuals res = replicate (length (complete_cases ds yvar [xvar])) 0
     \<and> detect_outliers res = []"
proof -
  let ?cc = "complete_cases ds yvar [xvar]"
  let ?X = "design_matrix ?cc"
  let ?ys = "map fst ?cc"
  have elem: "\<exists>x. xs = [x] \<and> y = 2 * x + 1" if "(y, xs) \<in> set ?cc" for y xs
    using that rel by (auto simp: set_complete_cases)
  have ma: "(ya, [xa]) \<in> set ?cc" and mb: "(yb, [xb]) \<in> set ?cc"
    using o1 o2 by (auto simp: set_complete_cases)
  have len: "2 \<le> length ?cc"
    using length_ge_2 [OF ma mb] ne by simp
  have shape: "\<forall>r\<in>set ?X. length r = 2"
    using design_matrix_shape [of ds yvar "[xvar]"] by simp
  have exact: "map (\<lambda>r. dot r [1, 2]) ?X = ?ys"
  proof -
    have "dot (1 # xs) [1, 2] = y" if "(y, xs) \<in> set ?cc" for y xs
      using elem [OF that] by auto
    then show ?thesis
      by (auto simp: design_matrix_def)
  qed
  have ker: "v = replicate 2 0"
    if lv: "length v = 2" and z: "\<forall>e\<in>set (normal_equations 2 ?X ?ys). dot (fst e) v = 0" for v
  proof -
    from design_kernel_of_normal [OF shape lv z] have d: "\<forall>r\<in>set ?X. dot r v = 0" .
    obtain v0 v1 where v: "v = [v0, v1]"
      using lv by (cases v; cases "tl v") auto
    have "[1, xa] \<in> set ?X" "[1, xb] \<in> set ?X"
      using ma mb by (force simp: design_matrix_def)+
    with d have "v0 + xa * v1 = 0" "v0 + xb * v1 = 0"
      by (auto simp: v)
    then have "(v0 + xa * v1) - (v0 + xb * v1) = 0" by simp
    then have "(xa - xb) * v1 = 0" by (simp only: algebra_simps)
    with ne have "v1 = 0" by simp
    with \<open>v0 + xa * v1 = 0\<close> show ?thesis by (simp add: v numeral_2_eq_2)
  qed
  have "gauss 2 (normal_equations 2 ?X ?ys) \<noteq> None"
    by (rule gauss_complete [OF normal_equations_shape ker])
  then obtain beta where beta: "gauss 2 (normal_equations 2 ?X ?ys) = Some beta" by auto
  have "[1, 2] = beta"
    by (rule gauss_unique [OF beta normal_equations_shape _ normal_solution [OF shape exact]]) simp
  with beta have g: "gauss 2 (normal_equations 2 ?X ?ys) = Some [1, 2]" by simp
  have es: "map2 (\<lambda>y r. y - dot r [1, 2]) ?ys ?X = replicate (length ?cc) 0"
  proof -
    have "map2 (\<lambda>y r. y - dot r [1, 2]) ?ys ?X = map (\<lambda>(y, xs). y - dot (1 # xs) [1, 2]) ?cc"
      by (simp add: design_matrix_def zip_map_map zip_same_conv_map case_prod_unfold)
    also have "\<dots> = map (\<lambda>c. 0) ?cc"
    proof -
      have "(case c of (y, xs) \<Rightarrow> y - dot (1 # xs) [1, 2]) = 0" if "c \<in> set ?cc" for c
        using elem [of "fst c" "snd c"] that by (auto simp: case_prod_unfold)
      then show ?thesis by simp
    qed
    finally show ?thesis by (simp add: map_replicate_const)
  qed
  have sst: "sum_squares (map (\<lambda>y. y - average ?ys) ?ys) \<noteq> 0"
  proof
    assume "sum_squares (map (\<lambda>y. y - average ?ys) ?ys) = 0"
    then have "\<forall>d\<in>set (map (\<lambda>y. y - average ?ys) ?ys). d = 0"
      unfolding sum_squares_dot by (rule dot_self_zero)
    moreover have "ya \<in> set ?ys" "yb \<in> set ?ys"
      using ma mb by force+
    ultimately have "ya = yb" by auto
    moreover have "ya = 2 * xa + 1" "yb = 2 * xb + 1"
      using elem [OF ma] elem [OF mb] by auto
    ultimately show False using ne by simp
  qed
  let ?res = "\<lparr>intercept = 1, coefficients = [(xvar, 2)], r_squared = Some 1,
      residuals = replicate (length ?cc) 0, excluded = length ds - length ?cc\<rparr>"
  have ss0: "sum_squares (replicate m 0) = 0" for m
    by (induction m) (simp_all add: sum_squares_def)
  have n2: "length [xvar] + 1 = 2" by simp
  have g': "gauss (length [xvar] + 1) (normal_equations (length [xvar] + 1) ?X ?ys) = Some [1, 2]"
    unfolding n2 by (rule g)
  have len': "\<not> length ?cc < length [xvar] + 1"
    using len by simp
  have fit: "fit ds yvar [xvar] = Inr ?res"
    unfolding fit_solved [OF len' g'] es
    using sst by (simp add: ss0)
  have "standardized ?res e = None" for e
    by (simp add: standardized_def Let_def ss0)
  then have "detect_outliers ?res = []"
    by (simp add: detect_outliers_def map_filter_None case_prod_unfold)
  with fit show ?thesis by simp
qed

theorem C3_exact_line_fit_witness:
  "\<exists>res. fit [[''x'' \<mapsto> 0, ''y'' \<mapsto> 1], [''x'' \<mapsto> 1, ''y'' \<mapsto> 3],
               [''x'' \<mapsto> 7], [''x'' \<mapsto> 2, ''y'' \<mapsto> 5]] ''y'' [''x''] = Inr res
     \<and> intercept res = 1 \<and> coefficients res = [(''x'', 2)] \<and> r_squared res = Some 1
     \<and> detect_outliers res = []"
proof -
  let ?ds = "[[''x'' \<mapsto> 0, ''y'' \<mapsto> 1], [''x'' \<mapsto> 1, ''y'' \<mapsto> 3],
               [''x'' \<mapsto> 7], [''x'' \<mapsto> 2, ''y'' \<mapsto> 5 :: real]]"
  have rel: "\<forall>obs\<in>set ?ds. \<forall>x y. obs ''x'' = Some x \<longrightarrow> obs ''y'' = Some y \<longrightarrow> y = 2 * x + 1"
    by simp
  have o1: "[''x'' \<mapsto> 0, ''y'' \<mapsto> 1 :: real] \<in> set ?ds"
    "[''x'' \<mapsto> 0, ''y'' \<mapsto> 1 :: real] ''x'' = Some 0" "[''x'' \<mapsto> 0, ''y'' \<mapsto> 1 :: real] ''y'' = Some 1"
    by simp_all
  have o2: "[''x'' \<mapsto> 1, ''y'' \<mapsto> 3 :: real] \<in> set ?ds"
    "[''x'' \<mapsto> 1, ''y'' \<mapsto> 3 :: real] ''x'' = Some 1" "[''x'' \<mapsto> 1, ''y'' \<mapsto> 3 :: real] ''y'' = Some 3"
    by simp_all
  from C3_exact_line_fit [OF rel o1 o2] show ?thesis
    by auto
qed

section \<open>Properties of the correlation engine\<close>

lemma dot_nonneg: "0 \<le> dot u u"
  by (induction u) simp_all

lemma dot_combination:
  "length u = length v \<Longrightarrow>
     dot (map2 (\<lambda>x y. a * x - b * y) u v) (map2 (\<lambda>x y. a * x - b * y) u v)
       = a * a * dot u u - 2 * a * b * dot u v + b * b * dot v v"
  by (induction u v rule: list_induct2) (simp_all add: algebra_simps)

lemma dot_zero_left:
  assumes "dot v v = 0"
  shows "dot u v = 0"
proof -
  from dot_self_zero [OF assms] have "v = replicate (length v) 0"
    by (simp add: replicate_length_same)
  then have "dot u v = dot u (replicate (length v) 0)" by simp
  then show ?thesis by simp
qed

lemma cauchy_schwarz:
  assumes "length u = length v"
  shows "dot u v * dot u v \<le> dot u u * dot v v"
proof (cases "dot v v = 0")
  case True
  with dot_zero_left [OF True, of u] show ?thesis by simp
next
  case False
  with dot_nonneg [of v] have pos: "0 < dot v v" by simp
  let ?a = "dot v v" and ?b = "dot u v"
  have "0 \<le> ?a * ?a * dot u u - 2 * ?a * ?b * ?b + ?b * ?b * ?a"
    using dot_nonneg [of "map2 (\<lambda>x y. ?a * x - ?b * y) u v"] dot_combination [OF assms, of ?a ?b]
    by simp
  also have "\<dots> = ?a * (dot u u * ?a - ?b * ?b)"
    by (simp add: algebra_simps)
  finally have "0 \<le> dot u u * ?a - ?b * ?b"
    using pos by (simp add: zero_le_mult_iff)
  then show ?thesis by simp
qed

lemma length_deviations [simp]: "length (deviations xs) = length xs"
  by (simp add: deviations_def)

lemma abs_ratio_le_1: "\<bar>n\<bar> \<le> D \<Longrightarrow> 0 < D \<Longrightarrow> \<bar>n / D\<bar> \<le> 1" for n D :: real
  by (simp add: abs_le_iff field_simps)

lemma pearson_range:
  assumes "pearson ps = Inr r"
  shows "- 1 \<le> r \<and> r \<le> 1"
proof -
  let ?dx = "deviations (map fst ps)" and ?dy = "deviations (map snd ps)"
  let ?sxx = "dot ?dx ?dx" and ?syy = "dot ?dy ?dy" and ?sxy = "dot ?dx ?dy"
  from assms have nz: "?sxx \<noteq> 0" "?syy \<noteq> 0" and r: "r = ?sxy / (sqrt ?sxx * sqrt ?syy)"
    by (auto simp: pearson_def Let_def sum_squares_dot split: if_splits)
  have pos: "0 < ?sxx" "0 < ?syy"
    using nz dot_nonneg [of ?dx] dot_nonneg [of ?dy] by simp_all
  have cs: "?sxy * ?sxy \<le> ?sxx * ?syy"
    by (rule cauchy_schwarz) simp
  have "\<bar>?sxy\<bar> = sqrt (?sxy * ?sxy)"
    by simp
  also have "\<dots> \<le> sqrt (?sxx * ?syy)"
    using cs by (simp only: real_sqrt_le_iff)
  also have "\<dots> = sqrt ?sxx * sqrt ?syy"
    by (rule real_sqrt_mult)
  finally have b: "\<bar>?sxy\<bar> \<le> sqrt ?sxx * sqrt ?syy" .
  have d: "0 < sqrt ?sxx * sqrt ?syy"
    using pos by simp
  from b d have "\<bar>r\<bar> \<le> 1"
    unfolding r by (rule abs_ratio_le_1)
  then show ?thesis by (simp add: abs_le_iff)
qed

lemma paired_swap: "paired ds b a = map (\<lambda>(x, y). (y, x)) (paired ds a b)"
  unfolding paired_def
  by (induction ds) (auto simp: List.map_filter_simps split: option.splits)

lemma pearson_swap: "pearson (map (\<lambda>(x, y). (y, x)) ps) = pearson ps"
proof -
  let ?qs = "map (\<lambda>(x, y). (y, x)) ps"
  have f: "map fst ?qs = map snd ps" and g: "map snd ?qs = map fst ps"
    by (induction ps) auto
  let ?dx = "deviations (map fst ps)" and ?dy = "deviations (map snd ps)"
  have l: "pearson ?qs =
      (if sum_squares ?dy = 0 \<or> sum_squares ?dx = 0 then Inl DegenerateVarianceError
       else Inr (dot ?dy ?dx / (sqrt (sum_squares ?dy) * sqrt (sum_squares ?dx))))"
    unfolding pearson_def Let_def f g ..
  have r: "pearson ps =
      (if sum_squares ?dx = 0 \<or> sum_squares ?dy = 0 then Inl DegenerateVarianceError
       else Inr (dot ?dx ?dy / (sqrt (sum_squares ?dx) * sqrt (sum_squares ?dy))))"
    unfolding pearson_def Let_def ..
  have c: "dot ?dy ?dx = dot ?dx ?dy"
    by (rule dot_commute)
  have m: "sqrt (sum_squares ?dy) * sqrt (sum_squares ?dx) = sqrt (sum_squares ?dx) * sqrt (sum_squares ?dy)"
    by (rule mult.commute)
  have d: "(sum_squares ?dy = 0 \<or> sum_squares ?dx = 0) = (sum_squares ?dx = 0 \<or> sum_squares ?dy = 0)"
    by (rule disj_commute)
  show ?thesis
    unfolding l r c m d ..
qed

lemma pearson_symmetric: "pearson (paired ds b a) = pearson (paired ds a b)"
  unfolding paired_swap [of ds a b] by (rule pearson_swap [symmetric])

lemma paired_self: "paired ds a a = map (\<lambda>x. (x, x)) (List.map_filter (\<lambda>obs. obs a) ds)"
  unfolding paired_def
  by (induction ds) (auto simp: List.map_filter_simps split: option.splits)

lemma pearson_diagonal:
  assumes "\<not> degenerate ds a"
  shows "pearson (paired ds a a) = Inr 1"
proof -
  let ?xs = "List.map_filter (\<lambda>obs. obs a) ds"
  let ?s = "sum_squares (deviations ?xs)"
  have m: "fst \<circ> (\<lambda>x. (x, x)) = (id :: real \<Rightarrow> real)" "snd \<circ> (\<lambda>x. (x, x)) = (id :: real \<Rightarrow> real)"
    by (auto simp: fun_eq_iff)
  have nz: "?s \<noteq> 0" using assms by (simp add: degenerate_def)
  moreover have "0 \<le> ?s" by (simp add: sum_squares_dot dot_nonneg)
  ultimately have "sqrt ?s * sqrt ?s = ?s" by simp
  with nz show ?thesis
    by (simp add: paired_self pearson_def Let_def m sum_squares_dot [symmetric])
qed

lemma cell_correlate:
  "cell (correlate ds variables) a b =
     (if a \<in> set variables \<and> b \<in> set variables then Some (pearson (paired ds a b)) else None)"
proof -
  have row: "map_of (map (\<lambda>v. (v, f v)) vs) k = (if k \<in> set vs then Some (f k) else None)"
    for f :: "string \<Rightarrow> 'a" and vs k
    by (induction vs) auto
  show ?thesis
    by (simp add: cell_def correlate_def row)
qed

text \<open>
  C2. For every dataset and every list of variables, the matrix returned by
  \<^verbatim>\<open>correlate\<close> is symmetric (the entry for (a, b) is the entry for (b, a), also where it
  is a recorded error or absent), every coefficient in it lies in [-1, 1], and the diagonal
  entry of every listed variable that is not degenerate is 1.
\<close>

theorem C2_correlation_matrix_symmetric_bounded:
  "cell (correlate ds variables) a b = cell (correlate ds variables) b a
   \<and> (\<forall>r. cell (correlate ds variables) a b = Some (Inr r) \<longrightarrow> - 1 \<le> r \<and> r \<le> 1)
   \<and> (a \<in> set variables \<longrightarrow> \<not> degenerate ds a \<longrightarrow> cell (correlate ds variables) a a = Some (Inr 1))"
proof (intro conjI allI impI)
  show "cell (correlate ds variables) a b = cell (correlate ds variables) b a"
    by (simp add: cell_correlate pearson_symmetric [of ds b a] conj_commute)
next
  fix r assume "cell (correlate ds variables) a b = Some (Inr r)"
  then have "pearson (paired ds a b) = Inr r"
    by (simp add: cell_correlate split: if_splits)
  then show "- 1 \<le> r" "r \<le> 1"
    using pearson_range by blast+
next
  assume "a \<in> set variables" "\<not> degenerate ds a"
  then show "cell (correlate ds variables) a a = Some (Inr 1)"
    by (simp add: cell_correlate pearson_diagonal)
qed

text \<open>
  Four observations (one lacks y) of two variables that are uncorrelated over the three
  complete pairs.
\<close>

theorem C2_correlation_matrix_symmetric_bounded_witness:
  "''x'' \<in> set [''x'', ''y'']
   \<and> \<not> degenerate [[''x'' \<mapsto> 0, ''y'' \<mapsto> 1], [''x'' \<mapsto> 1, ''y'' \<mapsto> 0],
                     [''x'' \<mapsto> 5], [''x'' \<mapsto> 2, ''y'' \<mapsto> 1]] ''x''
   \<and> cell (correlate [[''x'' \<mapsto> 0, ''y'' \<mapsto> 1], [''x'' \<mapsto> 1, ''y'' \<mapsto> 0],
                       [''x'' \<mapsto> 5], [''x'' \<mapsto> 2, ''y'' \<mapsto> 1]] [''x'', ''y'']) ''x'' ''y''
       = Some (Inr 0)
   \<and> cell (correlate [[''x'' \<mapsto> 0, ''y'' \<mapsto> 1], [''x'' \<mapsto> 1, ''y'' \<mapsto> 0],
                       [''x'' \<mapsto> 5], [''x'' \<mapsto> 2, ''y'' \<mapsto> 1]] [''x'', ''y'']) ''y'' ''x''
       = Some (Inr 0)
   \<and> cell (correlate [[''x'' \<mapsto> 0, ''y'' \<mapsto> 1], [''x'' \<mapsto> 1, ''y'' \<mapsto> 0],
                       [''x'' \<mapsto> 5], [''x'' \<mapsto> 2, ''y'' \<mapsto> 1]] [''x'', ''y'']) ''x'' ''x''
       = Some (Inr 1)"
proof -
  let ?ds = "[[''x'' \<mapsto> 0, ''y'' \<mapsto> 1], [''x'' \<mapsto> 1, ''y'' \<mapsto> 0],
              [''x'' \<mapsto> 5], [''x'' \<mapsto> 2, ''y'' \<mapsto> 1 :: real]]"
  have m: "''x'' \<in> set [''x'', ''y'']"
    by simp
  have nd: "\<not> degenerate ?ds ''x''"
    by (simp add: degenerate_def deviations_def average_def sum_squares_def List.map_filter_simps)
  have xy: "cell (correlate ?ds [''x'', ''y'']) ''x'' ''y'' = Some (Inr 0)"
    by (simp add: cell_correlate paired_def pearson_def deviations_def average_def
        sum_squares_def dot_def List.map_filter_simps Let_def)
  note t = C2_correlation_matrix_symmetric_bounded [of ?ds "[''x'', ''y'']" "''x''" "''y''"]
  from t have "cell (correlate ?ds [''x'', ''y'']) ''y'' ''x'' = Some (Inr 0)"
    using xy by simp
  moreover from t m nd have "cell (correlate ?ds [''x'', ''y'']) ''x'' ''x'' = Some (Inr 1)"
    by blast
  ultimately show ?thesis
    using m nd xy by (intro conjI)
qed

section \<open>Properties of the prompt composer\<close>












end
